theory Spec2Isabelle
  imports Main "HOL-Library.Word" "HOL-Library.Signed_Division"
begin

unbundle bit_operations_syntax

section \<open>Data model (lcd.h)\<close>

text \<open>
  \<^verbatim>\<open>uint8_t\<close> and \<^verbatim>\<open>uint32_t\<close> are words. \<^verbatim>\<open>int8_t\<close> is an 8-bit word read
  with \<open>sint\<close>; storing an out-of-range \<^verbatim>\<open>int\<close> into it keeps the low eight bits
  (the conversion GCC and Clang implement). C \<^verbatim>\<open>int\<close> values (return codes, the
  promoted operands of the macros) are \<open>int\<close>: none of the modelled expressions
  leaves the 32-bit range.
\<close>

type_synonym u8 = "8 word"
type_synonym i8 = "8 word"
type_synonym u32 = "32 word"

definition EIO :: int where
  "EIO = 5"

text \<open>
  \<^verbatim>\<open>struct lcdDriver_t\<close>, nested structs flattened with the struct name as a
  prefix. \<^verbatim>\<open>userData\<close>, the padding bits and the two handler pointers are left
  out: the collaborators are the record \<open>collab\<close> below.
\<close>

record lcdDriver_t =
  error :: int
  dimensions_width :: u8
  dimensions_height :: u8
  fourBits :: bool
  writeOnly :: bool
  largeFont :: bool
  busTiming_addressSetup :: u32
  busTiming_enableHold :: u32
  busTiming_dataHold :: u32
  busTiming_busyInterval :: u32
  busTiming_busyHoldShort :: u32
  busTiming_busyHoldLong :: u32
  cursor_x :: i8
  cursor_y :: i8
  direction :: bool

subsection \<open>Command macros\<close>

text \<open>The macros compute in \<^verbatim>\<open>int\<close>; \<^verbatim>\<open>!!(b)\<close> is \<open>of_bool b\<close>.\<close>

definition LCD_CMD_CLEAR :: int where
  "LCD_CMD_CLEAR = 0x01"

definition LCD_CMD_HOME :: int where
  "LCD_CMD_HOME = 0x02"



definition LCD_CMD_FUNCTION :: "bool \<Rightarrow> bool \<Rightarrow> bool \<Rightarrow> int" where
  "LCD_CMD_FUNCTION b n f = 0x20 OR push_bit 4 (of_bool b) OR push_bit 3 (of_bool n) OR push_bit 2 (of_bool f)"


definition LCD_CMD_DADDR :: "int \<Rightarrow> int" where
  "LCD_CMD_DADDR addr = 0x80 OR (addr AND 0x7F)"

subsection \<open>Cursor model\<close>

text \<open>
  \<^verbatim>\<open>LCD_DECODE_CURSOR\<close>: all operands are promoted to \<^verbatim>\<open>int\<close>; C's \<^verbatim>\<open>%\<close>
  truncates towards zero (\<open>smod\<close>); the comparison yields 0 or 1.
\<close>

definition LCD_DECODE_CURSOR :: "lcdDriver_t \<Rightarrow> int" where
  "LCD_DECODE_CURSOR driver =
     sint (cursor_x driver) +
       (64 * (sint (cursor_y driver) smod 2) +
        uint (dimensions_width driver) * of_bool (sint (cursor_y driver) \<ge> 2))"

text \<open>
  \<^verbatim>\<open>lcdUpdateCursor\<close>. The increments and decrements act on \<^verbatim>\<open>int8_t\<close> fields
  (word arithmetic); the comparisons are between the promoted values.
\<close>

definition lcdUpdateCursor :: "lcdDriver_t \<Rightarrow> lcdDriver_t" where
  "lcdUpdateCursor driver =
     (if direction driver then
        (let d1 = driver\<lparr>cursor_x := cursor_x driver + 1\<rparr> in
         if sint (cursor_x d1) \<ge> uint (dimensions_width d1) then
           (let d2 = d1\<lparr>cursor_x := 0, cursor_y := cursor_y d1 + 1\<rparr> in
            if sint (cursor_y d2) \<ge> uint (dimensions_height d2)
            then d2\<lparr>cursor_y := 0\<rparr> else d2)
         else d1)
      else
        (let d1 = driver\<lparr>cursor_x := cursor_x driver - 1\<rparr> in
         if sint (cursor_x d1) < 0 then
           (let d2 = d1\<lparr>cursor_x := word_of_int (uint (dimensions_width d1) - 1),
                         cursor_y := cursor_y d1 - 1\<rparr> in
            if sint (cursor_y d2) < 0
            then d2\<lparr>cursor_y := word_of_int (uint (dimensions_height d2) - 1)\<rparr> else d2)
         else d1))"

section \<open>Collaborators and the bus trace (lcd.c)\<close>

text \<open>
  \<^verbatim>\<open>lcdBusIO\<close> and \<^verbatim>\<open>lcdDelay\<close> are weak symbols: the application links its own
  or installs handlers, which the default definitions forward to. They are
  parameters here. A collaborator sees the calls made so far (the trace) and
  its arguments and returns an \<^verbatim>\<open>int\<close>; every behaviour of a collaborator with
  hidden state is such a function of the history. A collaborator is assumed to
  be linked or installed, and not to write to the driver structure.
\<close>

datatype call = BusIO bool bool bool u8 | Delay u32

record collab =
  busIO :: "call list \<Rightarrow> bool \<Rightarrow> bool \<Rightarrow> bool \<Rightarrow> u8 \<Rightarrow> int"
  delay :: "call list \<Rightarrow> u32 \<Rightarrow> int"

definition lcdBusIO :: "collab \<Rightarrow> bool \<Rightarrow> bool \<Rightarrow> bool \<Rightarrow> u8 \<Rightarrow> call list \<Rightarrow> int \<times> call list" where
  "lcdBusIO c rw rs en data w = (busIO c w rw rs en data, w @ [BusIO rw rs en data])"

definition lcdDelay :: "collab \<Rightarrow> u32 \<Rightarrow> call list \<Rightarrow> int \<times> call list" where
  "lcdDelay c t w = (delay c w t, w @ [Delay t])"

text \<open>
  A condition \<^verbatim>\<open>lcdBusIO(..) < 0 || lcdDelay(..) != 0 || ...\<close>: the calls are made
  from left to right and the first failing one ends the evaluation with
  \<open>True\<close>. A trailing \<^verbatim>\<open>lcdDelay(..)\<close> without \<^verbatim>\<open>!= 0\<close> has the same truth value.
\<close>

fun io_chain :: "collab \<Rightarrow> call list \<Rightarrow> call list \<Rightarrow> bool \<times> call list" where
  "io_chain c [] w = (False, w)"
| "io_chain c (BusIO rw rs en data # cs) w =
     (case lcdBusIO c rw rs en data w of
        (r, w') \<Rightarrow> if r < 0 then (True, w') else io_chain c cs w')"
| "io_chain c (Delay t # cs) w =
     (case lcdDelay c t w of
        (r, w') \<Rightarrow> if r \<noteq> 0 then (True, w') else io_chain c cs w')"

text \<open>The six calls of one write pulse of \<^verbatim>\<open>lcdCommand\<close> (\<open>rs = False\<close>) and \<^verbatim>\<open>lcdWrite\<close> (\<open>rs = True\<close>).\<close>

definition write_pulse :: "lcdDriver_t \<Rightarrow> bool \<Rightarrow> u8 \<Rightarrow> call list" where
  "write_pulse driver rs byte =
     [BusIO False rs False byte, Delay (busTiming_addressSetup driver),
      BusIO False rs True byte, Delay (busTiming_enableHold driver),
      BusIO False rs False byte, Delay (busTiming_dataHold driver)]"

text \<open>
  One pass through the body of the \<^verbatim>\<open>do ... while\<close> loop: whether a call failed,
  the sampled \<^verbatim>\<open>value\<close> (0 until the sample is taken) and the trace.
\<close>

definition poll_tail :: "lcdDriver_t \<Rightarrow> call list" where
  "poll_tail driver =
     BusIO True False False 0 #
     (if fourBits driver then
        [Delay (busTiming_dataHold driver), BusIO True False True 0,
         Delay (busTiming_enableHold driver), BusIO True False False 0]
      else [])"

definition poll_head :: "lcdDriver_t \<Rightarrow> call list" where
  "poll_head driver =
     [Delay (busTiming_busyInterval driver), BusIO True False True 0,
      Delay (busTiming_enableHold driver)]"

definition poll_body :: "collab \<Rightarrow> lcdDriver_t \<Rightarrow> call list \<Rightarrow> bool \<times> int \<times> call list" where
  "poll_body c driver w =
     (case io_chain c (poll_head driver) w of
        (True, w1) \<Rightarrow> (True, 0, w1)
      | (False, w1) \<Rightarrow>
          (case lcdBusIO c True False True 0 w1 of
             (v, w2) \<Rightarrow>
               if v < 0 then (True, v, w2)
               else (case io_chain c (poll_tail driver) w2 of
                       (failed, w3) \<Rightarrow> (failed, v, w3))))"

text \<open>
  The loop itself. It has no bound: \<open>None\<close> is a controller that never clears
  its busy flag. The result is whether a call failed, and the trace.
\<close>

partial_function (option) busy_wait :: "collab \<Rightarrow> lcdDriver_t \<Rightarrow> call list \<Rightarrow> (bool \<times> call list) option" where
  "busy_wait c driver w =
     (case poll_body c driver w of
        (failed, v, w') \<Rightarrow>
          if failed then Some (True, w')
          else if bit v 7 then busy_wait c driver w'
          else Some (False, w'))"

declare busy_wait.simps [code]

text \<open>
  The common body of \<^verbatim>\<open>lcdCommand\<close> and \<^verbatim>\<open>lcdWrite\<close>, which differ in the
  register-select flag of the write pulses only. The result is the returned
  \<^verbatim>\<open>int\<close>, the driver and the trace.
\<close>

type_synonym ret = "int \<times> lcdDriver_t \<times> call list"

definition lcd_transfer :: "collab \<Rightarrow> lcdDriver_t \<Rightarrow> bool \<Rightarrow> u8 \<Rightarrow> call list \<Rightarrow> ret option" where
  "lcd_transfer c driver rs byte w =
     (case io_chain c (write_pulse driver rs byte) w of
        (True, w1) \<Rightarrow> Some (-1, driver\<lparr>error := EIO\<rparr>, w1)
      | (False, w1) \<Rightarrow>
          (case (if fourBits driver
                 then io_chain c (write_pulse driver rs (push_bit 4 byte)) w1
                 else (False, w1)) of
             (True, w2) \<Rightarrow> Some (-1, driver\<lparr>error := EIO\<rparr>, w2)
           | (False, w2) \<Rightarrow>
               if writeOnly driver then
                 (case lcdDelay c (busTiming_busyHoldShort driver) w2 of
                    (r, w3) \<Rightarrow> Some (r, driver, w3))
               else
                 (case io_chain c [BusIO True False False 0,
                                   Delay (busTiming_addressSetup driver)] w2 of
                    (True, w3) \<Rightarrow> Some (-1, driver\<lparr>error := EIO\<rparr>, w3)
                  | (False, w3) \<Rightarrow>
                      (case busy_wait c driver w3 of
                         None \<Rightarrow> None
                       | Some (True, w4) \<Rightarrow> Some (-1, driver\<lparr>error := EIO\<rparr>, w4)
                       | Some (False, w4) \<Rightarrow>
                           (case lcdBusIO c False False False 0 w4 of
                              (r, w5) \<Rightarrow> Some (r, driver, w5))))))"

definition lcdCommand :: "collab \<Rightarrow> lcdDriver_t \<Rightarrow> u8 \<Rightarrow> call list \<Rightarrow> ret option" where
  "lcdCommand c driver command w = lcd_transfer c driver False command w"

definition lcdWrite :: "collab \<Rightarrow> lcdDriver_t \<Rightarrow> u8 \<Rightarrow> call list \<Rightarrow> ret option" where
  "lcdWrite c driver data w = lcd_transfer c driver True data w"

section \<open>Driver operations\<close>

text \<open>
  A failing \<^verbatim>\<open>assert\<close> aborts the process: \<open>AssertionFailed\<close>, with the driver
  and the trace at that moment. (The source is modelled with assertions
  enabled, as \<^verbatim>\<open>assert.h\<close> gives them without \<^verbatim>\<open>NDEBUG\<close>.) The pointer
  assertions \<^verbatim>\<open>assert(driver)\<close>, \<^verbatim>\<open>assert(str)\<close>, \<^verbatim>\<open>assert(bits)\<close> hold of every
  modelled call.
\<close>

datatype outcome = AssertionFailed lcdDriver_t "call list" | Returned int lcdDriver_t "call list"

definition returned :: "ret option \<Rightarrow> outcome option" where
  "returned x = (case x of None \<Rightarrow> None | Some (r, driver, w) \<Rightarrow> Some (Returned r driver w))"

subsection \<open>lcd.h\<close>

definition lcdClear :: "collab \<Rightarrow> lcdDriver_t \<Rightarrow> call list \<Rightarrow> ret option" where
  "lcdClear c driver w =
     (case lcdCommand c driver (word_of_int LCD_CMD_CLEAR) w of
        None \<Rightarrow> None
      | Some (r, d1, w1) \<Rightarrow>
          if r \<noteq> 0 then Some (-1, d1, w1)
          else (case lcdDelay c (busTiming_busyHoldShort d1) w1 of
                  (r2, w2) \<Rightarrow>
                    if r2 \<noteq> 0 then Some (-1, d1, w2)
                    else Some (0, d1\<lparr>cursor_x := 0, cursor_y := 0\<rparr>, w2)))"

definition lcdHome :: "collab \<Rightarrow> lcdDriver_t \<Rightarrow> call list \<Rightarrow> ret option" where
  "lcdHome c driver w =
     (case lcdCommand c driver (word_of_int LCD_CMD_HOME) w of
        None \<Rightarrow> None
      | Some (r, d1, w1) \<Rightarrow>
          if r \<noteq> 0 then Some (-1, d1, w1)
          else (case lcdDelay c (busTiming_busyHoldLong d1) w1 of
                  (r2, w2) \<Rightarrow>
                    if r2 \<noteq> 0 then Some (-1, d1, w2)
                    else Some (0, d1\<lparr>cursor_x := 0, cursor_y := 0\<rparr>, w2)))"




text \<open>
  \<^verbatim>\<open>lcdSetCursor\<close>: the arguments are stored into the \<^verbatim>\<open>int8_t\<close> cursor fields
  (same bits), the decoded address is narrowed to \<^verbatim>\<open>uint8_t\<close> and promoted again
  in the macro.
\<close>

definition lcdSetCursor :: "collab \<Rightarrow> lcdDriver_t \<Rightarrow> u8 \<Rightarrow> u8 \<Rightarrow> call list \<Rightarrow> outcome option" where
  "lcdSetCursor c driver column row w =
     (if \<not> (uint (dimensions_width driver) > uint column) then Some (AssertionFailed driver w)
      else if \<not> (uint (dimensions_height driver) > uint row) then Some (AssertionFailed driver w)
      else
        (let d1 = driver\<lparr>cursor_x := column, cursor_y := row\<rparr>;
             address = (word_of_int (LCD_DECODE_CURSOR d1) :: u8)
         in returned (lcdCommand c d1 (word_of_int (LCD_CMD_DADDR (uint address))) w)))"




text \<open>
  The loop of \<^verbatim>\<open>lcdPutString\<close> over the remaining characters, with the local
  \<^verbatim>\<open>address\<close>. \<^verbatim>\<open>address + 1\<close> is computed in \<^verbatim>\<open>int\<close>; the command sent when the
  new address does not follow the old one carries the old \<^verbatim>\<open>address\<close>, as the
  source has it. The last equation is the \<^verbatim>\<open>return\<close> after the loop.
\<close>

fun put_loop :: "collab \<Rightarrow> lcdDriver_t \<Rightarrow> u8 \<Rightarrow> u8 list \<Rightarrow> call list \<Rightarrow> ret option" where
  "put_loop c driver address [] w =
     lcdCommand c driver (word_of_int (LCD_CMD_DADDR (uint address))) w"
| "put_loop c driver address (ch # str) w =
     (case lcdWrite c driver ch w of
        None \<Rightarrow> None
      | Some (r, d1, w1) \<Rightarrow>
          if r \<noteq> 0 then Some (-1, d1, w1)
          else
            (let d2 = lcdUpdateCursor d1;
                 newaddr = (word_of_int (LCD_DECODE_CURSOR d2) :: u8)
             in if uint newaddr \<noteq> uint address + 1 then
                  (case lcdCommand c d2 (word_of_int (LCD_CMD_DADDR (uint address))) w1 of
                     None \<Rightarrow> None
                   | Some (r2, d3, w2) \<Rightarrow>
                       if r2 \<noteq> 0 then Some (-1, d3, w2)
                       else put_loop c d3 newaddr str w2)
                else put_loop c d2 newaddr str w1))"

definition lcdPutString :: "collab \<Rightarrow> lcdDriver_t \<Rightarrow> u8 list \<Rightarrow> call list \<Rightarrow> ret option" where
  "lcdPutString c driver str w =
     (let address = (word_of_int (LCD_DECODE_CURSOR driver) :: u8)
      in case lcdCommand c driver (word_of_int (LCD_CMD_DADDR (uint address))) w of
           None \<Rightarrow> None
         | Some (r, d1, w1) \<Rightarrow>
             if r \<noteq> 0 then Some (-1, d1, w1) else put_loop c d1 address str w1)"

subsection \<open>lcd.c: initialisation\<close>

definition init_reset_calls :: "lcdDriver_t \<Rightarrow> call list" where
  "init_reset_calls driver =
     (let cmd = (word_of_int (LCD_CMD_FUNCTION True False False) :: u8) in
      [BusIO False False False cmd, Delay (busTiming_addressSetup driver),
       BusIO False False True cmd, Delay (busTiming_enableHold driver),
       BusIO False False False cmd, Delay 5000,
       BusIO False False False cmd, Delay (busTiming_addressSetup driver),
       BusIO False False True cmd, Delay (busTiming_enableHold driver),
       BusIO False False False cmd, Delay 100,
       BusIO False False True cmd, Delay (busTiming_enableHold driver),
       BusIO False False False cmd, Delay (busTiming_dataHold driver)])"

definition init_request_calls :: "lcdDriver_t \<Rightarrow> call list" where
  "init_request_calls driver =
     (let cmd = (word_of_int (LCD_CMD_FUNCTION False False False) :: u8) in
      [BusIO False False False cmd, Delay (busTiming_addressSetup driver),
       BusIO False False True cmd, Delay (busTiming_enableHold driver),
       BusIO False False False cmd, Delay (busTiming_dataHold driver + 100)])"

definition lcdInit4Bit :: "collab \<Rightarrow> lcdDriver_t \<Rightarrow> call list \<Rightarrow> ret option" where
  "lcdInit4Bit c driver w =
     (case io_chain c (init_reset_calls driver) w of
        (True, w1) \<Rightarrow> Some (-1, driver\<lparr>error := EIO\<rparr>, w1)
      | (False, w1) \<Rightarrow>
          (case io_chain c (init_request_calls driver) w1 of
             (True, w2) \<Rightarrow> Some (-1, driver\<lparr>error := EIO\<rparr>, w2)
           | (False, w2) \<Rightarrow>
               lcdCommand c driver (word_of_int (LCD_CMD_FUNCTION False False False)) w2))"

definition lcdInit :: "collab \<Rightarrow> lcdDriver_t \<Rightarrow> call list \<Rightarrow> outcome option" where
  "lcdInit c driver w =
     (let d0 = driver\<lparr>cursor_x := 0, cursor_y := 0\<rparr> in
      if fourBits d0 then
        (case lcdInit4Bit c d0 w of
           None \<Rightarrow> None
         | Some (r1, d1, w1) \<Rightarrow>
             if r1 \<noteq> 0 then Some (Returned (-1) d1 w1)
             else
               (case lcdCommand c d1
                       (word_of_int (LCD_CMD_FUNCTION False (uint (dimensions_height d1) > 1) (largeFont d1))) w1 of
                  None \<Rightarrow> None
                | Some (r2, d2, w2) \<Rightarrow>
                    if r2 \<noteq> 0 then Some (Returned (-1) d2 w2)
                    else
                      (case lcdDelay c (busTiming_busyHoldShort d2) w2 of
                         (r3, w3) \<Rightarrow>
                           if r3 \<noteq> 0 then Some (Returned (-1) d2 w3)
                           else returned (lcdClear c d2 w3))))
      else Some (AssertionFailed d0 w))"

subsection \<open>lcd.h: default timing\<close>

definition lcdLoadDefaultTiming :: "lcdDriver_t \<Rightarrow> lcdDriver_t" where
  "lcdLoadDefaultTiming driver =
     driver\<lparr>busTiming_addressSetup := 10, busTiming_enableHold := 10,
            busTiming_dataHold := 10, busTiming_busyInterval := 50,
            busTiming_busyHoldShort := 500, busTiming_busyHoldLong := 50000\<rparr>"

section \<open>Predicates of the specification\<close>

text \<open>The cursor invariant of the data model, on the signed cursor fields.\<close>

definition cursor_valid :: "lcdDriver_t \<Rightarrow> bool" where
  "cursor_valid driver \<longleftrightarrow>
     0 \<le> sint (cursor_x driver) \<and> sint (cursor_x driver) < uint (dimensions_width driver) \<and>
     0 \<le> sint (cursor_y driver) \<and> sint (cursor_y driver) < uint (dimensions_height driver)"

text \<open>
  A collaborator call fails when \<^verbatim>\<open>lcdBusIO\<close> returns a negative value or
  \<^verbatim>\<open>lcdDelay\<close> a non-zero one; \<open>w\<close> is the trace before the call.
\<close>

fun call_fails :: "collab \<Rightarrow> call list \<Rightarrow> call \<Rightarrow> bool" where
  "call_fails c w (BusIO rw rs en data) = (busIO c w rw rs en data < 0)"
| "call_fails c w (Delay t) = (delay c w t \<noteq> 0)"

text \<open>Every call of \<open>es\<close>, made in this order after the trace \<open>w\<close>, succeeds.\<close>

fun all_ok :: "collab \<Rightarrow> call list \<Rightarrow> call list \<Rightarrow> bool" where
  "all_ok c w [] = True"
| "all_ok c w (e # es) = (\<not> call_fails c w e \<and> all_ok c (w @ [e]) es)"

text \<open>
  The trace \<open>w'\<close> extends \<open>w\<close> by calls that all succeed (\<open>failed = False\<close>), or
  that all succeed but the last one, which fails (\<open>failed = True\<close>).
\<close>

definition seg :: "collab \<Rightarrow> call list \<Rightarrow> bool \<Rightarrow> call list \<Rightarrow> bool" where
  "seg c w failed w' \<longleftrightarrow>
     (\<exists>u. w' = w @ u \<and>
        (if failed then u \<noteq> [] \<and> all_ok c w (butlast u) \<and> call_fails c (w @ butlast u) (last u)
         else all_ok c w u))"

section \<open>Example configurations\<close>

text \<open>A four-bit, write-only driver with the default timing and the cursor at the origin.\<close>

definition example_driver :: "u8 \<Rightarrow> u8 \<Rightarrow> lcdDriver_t" where
  "example_driver wd ht =
     lcdLoadDefaultTiming
       \<lparr>error = 0, dimensions_width = wd, dimensions_height = ht,
        fourBits = True, writeOnly = True, largeFont = False,
        busTiming_addressSetup = 0, busTiming_enableHold = 0, busTiming_dataHold = 0,
        busTiming_busyInterval = 0, busTiming_busyHoldShort = 0, busTiming_busyHoldLong = 0,
        cursor_x = 0, cursor_y = 0, direction = True\<rparr>"

text \<open>Collaborators that always succeed, and that fail at the call number \<open>k\<close> (from 0).\<close>

definition quiet :: collab where
  "quiet = \<lparr>busIO = (\<lambda>h rw rs en data. 0), delay = (\<lambda>h t. 0)\<rparr>"

definition failing_at :: "nat \<Rightarrow> collab" where
  "failing_at k =
     \<lparr>busIO = (\<lambda>h rw rs en data. if length h = k then - 1 else 0),
      delay = (\<lambda>h t. if length h = k then 1 else 0)\<rparr>"

text \<open>A controller whose status reads show the busy flag until \<open>k\<close> calls have been made.\<close>

definition busy_until :: "nat \<Rightarrow> collab" where
  "busy_until k =
     \<lparr>busIO = (\<lambda>h rw rs en data. if rw \<and> length h < k then 0x80 else 0),
      delay = (\<lambda>h t. 0)\<rparr>"

section \<open>Call sequences\<close>

text \<open>
  The write calls of one byte transfer: one pulse on an eight-bit bus, two on a
  four-bit bus (the byte, then the byte shifted left by four).
\<close>

definition transfer_calls :: "lcdDriver_t \<Rightarrow> bool \<Rightarrow> u8 \<Rightarrow> call list" where
  "transfer_calls driver rs byte =
     write_pulse driver rs byte @ (if fourBits driver then write_pulse driver rs (push_bit 4 byte) else [])"

text \<open>The calls of one pass through the polling loop when none fails.\<close>

definition poll_cycle :: "lcdDriver_t \<Rightarrow> call list" where
  "poll_cycle driver = poll_head driver @ [BusIO True False True 0] @ poll_tail driver"

text \<open>A bus call with the read flag set.\<close>

fun is_read :: "call \<Rightarrow> bool" where
  "is_read (BusIO rw rs en data) = rw"
| "is_read (Delay t) = False"

text \<open>
  Fail-fast behaviour of an operation that started at trace \<open>w\<close>, returned \<open>r\<close> and
  left the trace \<open>w'\<close>: no call failed, or the last call is the only failing
  one and the result is non-zero.
\<close>

definition fail_stop :: "collab \<Rightarrow> call list \<Rightarrow> int \<Rightarrow> call list \<Rightarrow> bool" where
  "fail_stop c w r w' \<longleftrightarrow> seg c w False w' \<or> (seg c w True w' \<and> r \<noteq> 0)"

text \<open>The driver is unchanged, or differs by a latched \<^verbatim>\<open>EIO\<close> only.\<close>

definition err_only :: "lcdDriver_t \<Rightarrow> lcdDriver_t \<Rightarrow> bool" where
  "err_only d d' \<longleftrightarrow> d' = d \<or> d' = d\<lparr>error := EIO\<rparr>"

text \<open>
  The calls of a transfer on a read-capable bus up to the end of the \<open>n\<close>-th pass
  through the polling loop, when none fails: the write pulses, the switch to
  read direction and \<open>n\<close> polling cycles.
\<close>

definition polled_calls :: "lcdDriver_t \<Rightarrow> bool \<Rightarrow> u8 \<Rightarrow> nat \<Rightarrow> call list" where
  "polled_calls driver rs byte n =
     transfer_calls driver rs byte @
     [BusIO True False False 0, Delay (busTiming_addressSetup driver)] @
     concat (replicate n (poll_cycle driver))"

text \<open>
  The calls of a complete \<^verbatim>\<open>lcdInit\<close> on a four-bit, write-only bus when none
  fails: the reset pulses, the four-bit request, the command sent by
  \<^verbatim>\<open>lcdInit4Bit\<close>, the function-set command and its delay, and \<^verbatim>\<open>lcdClear\<close>.
\<close>

definition init_write_only_calls :: "lcdDriver_t \<Rightarrow> call list" where
  "init_write_only_calls driver =
     init_reset_calls driver @ init_request_calls driver @
     transfer_calls driver False (word_of_int (LCD_CMD_FUNCTION False False False)) @
     [Delay (busTiming_busyHoldShort driver)] @
     transfer_calls driver False
       (word_of_int (LCD_CMD_FUNCTION False (uint (dimensions_height driver) > 1) (largeFont driver))) @
     [Delay (busTiming_busyHoldShort driver)] @
     [Delay (busTiming_busyHoldShort driver)] @
     transfer_calls driver False (word_of_int LCD_CMD_CLEAR) @
     [Delay (busTiming_busyHoldShort driver)] @
     [Delay (busTiming_busyHoldShort driver)]"

text \<open>
  The fail-fast property in terms of call numbers: the trace \<open>w'\<close> extends \<open>w\<close>,
  and a call made by the operation (number \<open>k\<close> of \<open>w'\<close>, from 0) that fails is
  the last call of \<open>w'\<close> and makes the result \<open>r\<close> non-zero.
\<close>

definition stops_at_failure :: "collab \<Rightarrow> call list \<Rightarrow> int \<Rightarrow> call list \<Rightarrow> bool" where
  "stops_at_failure c w r w' \<longleftrightarrow>
     take (length w) w' = w \<and>
     (\<forall>k. length w \<le> k \<and> k < length w' \<and> call_fails c (take k w') (w' ! k)
          \<longrightarrow> Suc k = length w' \<and> r \<noteq> 0)"



section \<open>Cursor arithmetic\<close>

lemma smod2_nonneg: "0 \<le> (k::int) \<Longrightarrow> k smod 2 = k mod 2"
  by (simp add: signed_modulo_int_def sgn_if)

lemma decode_valid:
  "0 \<le> sint (cursor_y d) \<Longrightarrow>
   LCD_DECODE_CURSOR d = sint (cursor_x d) + 64 * (sint (cursor_y d) mod 2)
      + uint (dimensions_width d) * (if sint (cursor_y d) \<ge> 2 then 1 else 0)"
  by (simp add: LCD_DECODE_CURSOR_def smod2_nonneg)

lemma width_bound:
  fixes W H y n :: int
  assumes "W * H \<le> 80" "y < H" "n \<le> y + 1" "0 \<le> W"
  shows "W * n \<le> 80"
proof -
  have "W * n \<le> W * H" using assms by (intro mult_left_mono) auto
  with assms show ?thesis by linarith
qed

lemma decode_range:
  assumes "uint (dimensions_width d) * uint (dimensions_height d) \<le> 80" "cursor_valid d"
  shows "0 \<le> LCD_DECODE_CURSOR d \<and> LCD_DECODE_CURSOR d < 104"
proof -
  define x y W H where "x = sint (cursor_x d)" and "y = sint (cursor_y d)"
    and "W = uint (dimensions_width d)" and "H = uint (dimensions_height d)"
  have v: "0 \<le> x" "x < W" "0 \<le> y" "y < H" "W * H \<le> 80"
    using assms by (simp_all add: cursor_valid_def x_def y_def W_def H_def)
  have W0: "0 \<le> W" using v by linarith
  have b1: "W \<le> 80" using width_bound[OF v(5) v(4) _ W0, of 1] v(3) by simp
  have b2: "1 \<le> y \<Longrightarrow> W * 2 \<le> 80" using width_bound[OF v(5) v(4) _ W0, of 2] by simp
  have b3: "2 \<le> y \<Longrightarrow> W * 3 \<le> 80" using width_bound[OF v(5) v(4) _ W0, of 3] by simp
  have b4: "3 \<le> y \<Longrightarrow> W * 4 \<le> 80" using width_bound[OF v(5) v(4) _ W0, of 4] by simp
  have m: "y mod 2 = 0 \<or> y mod 2 = 1" by presburger
  have odd: "y mod 2 = 1 \<Longrightarrow> 2 \<le> y \<Longrightarrow> 3 \<le> y" by presburger
  have odd1: "y mod 2 = 1 \<Longrightarrow> 1 \<le> y" using v(3) by presburger
  have eq: "LCD_DECODE_CURSOR d = x + 64 * (y mod 2) + W * (if y \<ge> 2 then 1 else 0)"
    using decode_valid[of d] v(3) by (simp add: x_def y_def W_def)
  show ?thesis
    using m
  proof
    assume e: "y mod 2 = 0"
    show ?thesis using eq e v W0 b1 b3 by (auto split: if_splits)
  next
    assume o: "y mod 2 = 1"
    show ?thesis using eq o v W0 b2[OF odd1[OF o]] b4 odd[OF o] by (auto split: if_splits)
  qed
qed

lemma decode_inj:
  assumes "uint (dimensions_width d) * uint (dimensions_height d) \<le> 80"
    and "uint (dimensions_height d) \<le> 4"
    and "cursor_valid d" "cursor_valid d'"
    and "dimensions_width d' = dimensions_width d" "dimensions_height d' = dimensions_height d"
    and "LCD_DECODE_CURSOR d' = LCD_DECODE_CURSOR d"
  shows "cursor_x d' = cursor_x d \<and> cursor_y d' = cursor_y d"
proof -
  define x y W H x' y' where "x = sint (cursor_x d)" and "y = sint (cursor_y d)"
    and "W = uint (dimensions_width d)" and "H = uint (dimensions_height d)"
    and "x' = sint (cursor_x d')" and "y' = sint (cursor_y d')"
  have v: "0 \<le> x" "x < W" "0 \<le> y" "y < H" "W * H \<le> 80" "H \<le> 4"
     "0 \<le> x'" "x' < W" "0 \<le> y'" "y' < H"
    using assms by (simp_all add: cursor_valid_def x_def y_def W_def H_def x'_def y'_def)
  have W0: "0 \<le> W" using v by linarith
  have b2: "1 \<le> y \<Longrightarrow> W * 2 \<le> 80" using width_bound[OF v(5) v(4) _ W0, of 2] by simp
  have b3: "2 \<le> y \<Longrightarrow> W * 3 \<le> 80" using width_bound[OF v(5) v(4) _ W0, of 3] by simp
  have b2': "1 \<le> y' \<Longrightarrow> W * 2 \<le> 80" using width_bound[OF v(5) v(10) _ W0, of 2] by simp
  have b3': "2 \<le> y' \<Longrightarrow> W * 3 \<le> 80" using width_bound[OF v(5) v(10) _ W0, of 3] by simp
  have ys: "y = 0 \<or> y = 1 \<or> y = 2 \<or> y = 3" using v by linarith
  have ys': "y' = 0 \<or> y' = 1 \<or> y' = 2 \<or> y' = 3" using v by linarith
  have eq: "x' + 64 * (y' mod 2) + W * (if y' \<ge> 2 then 1 else 0)
          = x + 64 * (y mod 2) + W * (if y \<ge> 2 then 1 else 0)"
    using decode_valid[of d] decode_valid[of d'] v(3) v(9) assms(5,7)
    by (simp add: x_def y_def W_def x'_def y'_def)
  have "x' = x \<and> y' = y"
    using ys ys' eq v b2 b3 b2' b3' by (elim disjE) simp_all
  then show ?thesis
    unfolding x_def y_def x'_def y'_def by (auto intro: signed_word_eqI)
qed











section \<open>Traces of the bus protocol\<close>

lemma all_ok_append: "all_ok c w (a @ b) = (all_ok c w a \<and> all_ok c (w @ a) b)"
  by (induction a arbitrary: w) auto

lemma segI: "w' = w @ u \<Longrightarrow> (if f then u \<noteq> [] \<and> all_ok c w (butlast u) \<and> call_fails c (w @ butlast u) (last u) else all_ok c w u) \<Longrightarrow> seg c w f w'"
  unfolding seg_def by blast

lemma segE: 
  assumes "seg c w f w'"
  obtains u where "w' = w @ u" "if f then u \<noteq> [] \<and> all_ok c w (butlast u) \<and> call_fails c (w @ butlast u) (last u) else all_ok c w u"
  using assms unfolding seg_def by blast

lemma seg_refl: "seg c w False w"
  by (simp add: seg_def)

lemma seg_trans: 
  assumes "seg c w False w1" "seg c w1 f w2" shows "seg c w f w2"
proof -
  from assms(1) obtain u1 where u1: "w1 = w @ u1" "all_ok c w u1" by (auto elim: segE)
  from assms(2) obtain u2 where u2: "w2 = w1 @ u2"
     "if f then u2 \<noteq> [] \<and> all_ok c w1 (butlast u2) \<and> call_fails c (w1 @ butlast u2) (last u2) else all_ok c w1 u2" by (auto elim: segE)
  show ?thesis
  proof (rule segI[where u = "u1 @ u2"])
    show "w2 = w @ u1 @ u2" using u1 u2 by simp
    show "if f then u1 @ u2 \<noteq> [] \<and> all_ok c w (butlast (u1 @ u2)) \<and> call_fails c (w @ butlast (u1 @ u2)) (last (u1 @ u2)) else all_ok c w (u1 @ u2)"
      using u1 u2 by (auto simp: all_ok_append butlast_append)
  qed
qed

lemma seg_length: "seg c w f w' \<Longrightarrow> length w \<le> length w'"
  by (auto elim: segE)

lemma seg_bus: "lcdBusIO c rw rs en data w = (r, w') \<Longrightarrow> seg c w (r < 0) w'"
  by (rule segI[where u = "[BusIO rw rs en data]"]) (auto simp: lcdBusIO_def)

lemma seg_delay: "lcdDelay c t w = (r, w') \<Longrightarrow> seg c w (r \<noteq> 0) w'"
  by (rule segI[where u = "[Delay t]"]) (auto simp: lcdDelay_def)

lemma io_chain_step:
  "io_chain c (e # cs) w = (if call_fails c w e then (True, w @ [e]) else io_chain c cs (w @ [e]))"
  by (cases e) (simp_all add: lcdBusIO_def lcdDelay_def)

lemma io_chain_ok: "all_ok c w cs \<Longrightarrow> io_chain c cs w = (False, w @ cs)"
  by (induction cs arbitrary: w) (simp_all add: io_chain_step)

lemma io_chain_prefix:
  "io_chain c cs w = (f, w') \<Longrightarrow>
     \<exists>n\<le>length cs. w' = w @ take n cs \<and> (if f then seg c w True w' else n = length cs \<and> all_ok c w cs)"
proof (induction cs arbitrary: w)
  case Nil then show ?case by simp
next
  case (Cons e cs)
  show ?case
  proof (cases "call_fails c w e")
    case True
    with Cons.prems have *: "f \<and> w' = w @ take (Suc 0) (e # cs)" by (simp add: io_chain_step)
    with True have "seg c w True w'" by (intro segI[where u = "[e]"]) auto
    with * show ?thesis by (intro exI[of _ "Suc 0"]) simp 
  next
    case False
    with Cons.prems have "io_chain c cs (w @ [e]) = (f, w')" by (simp add: io_chain_step)
    from Cons.IH[OF this] obtain n where n: "n \<le> length cs" "w' = (w @ [e]) @ take n cs"
      "if f then seg c (w @ [e]) True w' else n = length cs \<and> all_ok c (w @ [e]) cs" by auto
    have s: "seg c w False (w @ [e])" using False by (intro segI[where u = "[e]"]) auto
    show ?thesis using n False seg_trans[OF s] by (intro exI[of _ "Suc n"]) (auto split: if_splits)
  qed
qed

lemma seg_chain: "io_chain c cs w = (f, w') \<Longrightarrow> seg c w f w'"
  by (cases f; drule io_chain_prefix) (auto intro: segI)

lemma seg_poll_body: 
  assumes "poll_body c d w = (f, v, w')" shows "seg c w f w'"
proof -
  obtain f1 w1 where c1: "io_chain c (poll_head d) w = (f1, w1)" by (cases "io_chain c (poll_head d) w")
  note s1 = seg_chain[OF c1]
  show ?thesis
  proof (cases f1)
    case True
    with assms c1 s1 show ?thesis by (simp add: poll_body_def)
  next
    case False
    obtain v2 w2 where c2: "lcdBusIO c True False True 0 w1 = (v2, w2)" by (cases "lcdBusIO c True False True 0 w1")
    note s2 = seg_bus[OF c2]
    show ?thesis
    proof (cases "v2 < 0")
      case True
      with assms c1 c2 False have "f" "w' = w2" by (simp_all add: poll_body_def)
      with s1 s2 False True show ?thesis by (auto intro: seg_trans)
    next
      case nf: False
      obtain f3 w3 where c3: "io_chain c (poll_tail d) w2 = (f3, w3)" by (cases "io_chain c (poll_tail d) w2")
      with assms c1 c2 False nf have "f = f3" "w' = w3" by (simp_all add: poll_body_def)
      with s1 s2 seg_chain[OF c3] False nf show ?thesis by (auto intro: seg_trans)
    qed
  qed
qed

lemma seg_busy_wait_aux: "busy_wait c d w = Some y \<Longrightarrow> seg c w (fst y) (snd y)"
proof (induction rule: busy_wait.raw_induct[rotated 1, consumes 1])
  case (1 bw c d w y)
  obtain f1 v w1 where pb: "poll_body c d w = (f1, v, w1)" by (cases "poll_body c d w") auto
  note s1 = seg_poll_body[OF pb]
  show ?case
  proof (cases f1)
    case True
    with 1(2) pb have "y = (True, w1)" by simp
    with s1 True show ?thesis by simp
  next
    case False
    show ?thesis
    proof (cases "bit v 7")
      case True
      with 1(2) pb False have "bw c d w1 = Some y" by simp
      from 1(1)[OF this] s1 False show ?thesis by (auto intro: seg_trans)
    next
      case nb: False
      with 1(2) pb False have "y = (False, w1)" by simp
      with s1 False show ?thesis by simp
    qed
  qed
qed

lemma seg_busy_wait: "busy_wait c d w = Some (f, w') \<Longrightarrow> seg c w f w'"
  by (drule seg_busy_wait_aux) simp

lemma transfer_chain:
  assumes "io_chain c (write_pulse d rs b) w = (False, w1)"
    and "(if fourBits d then io_chain c (write_pulse d rs (push_bit 4 b)) w1 else (False, w1)) = (False, w2)"
  shows "w2 = w @ transfer_calls d rs b \<and> all_ok c w (transfer_calls d rs b)"
proof -
  from io_chain_prefix[OF assms(1)] have 1: "w1 = w @ write_pulse d rs b" "all_ok c w (write_pulse d rs b)" by auto
  show ?thesis
  proof (cases "fourBits d")
    case True
    with assms(2) have "io_chain c (write_pulse d rs (push_bit 4 b)) w1 = (False, w2)" by simp
    from io_chain_prefix[OF this] 1 True show ?thesis by (auto simp: transfer_calls_def all_ok_append)
  next
    case False
    with assms(2) 1 show ?thesis by (simp add: transfer_calls_def)
  qed
qed

lemma lcd_transfer_cases:
  assumes "lcd_transfer c d rs b w = Some (r, d', w')"
  shows "(r = - 1 \<and> d' = d\<lparr>error := EIO\<rparr> \<and> seg c w True w')
       \<or> (d' = d \<and> writeOnly d \<and> all_ok c w (transfer_calls d rs b)
            \<and> w' = w @ transfer_calls d rs b @ [Delay (busTiming_busyHoldShort d)]
            \<and> r = delay c (w @ transfer_calls d rs b) (busTiming_busyHoldShort d))
       \<or> (d' = d \<and> \<not> writeOnly d \<and>
            (\<exists>w4. seg c w False w4 \<and> length w + length (transfer_calls d rs b) \<le> length w4
                 \<and> w' = w4 @ [BusIO False False False 0] \<and> r = busIO c w4 False False False 0))"
proof -
  obtain f1 w1 where c1: "io_chain c (write_pulse d rs b) w = (f1, w1)" by (cases "io_chain c (write_pulse d rs b) w")
  note s1 = seg_chain[OF c1]
  show ?thesis
  proof (cases f1)
    case True
    with c1 have "lcd_transfer c d rs b w = Some (- 1, d\<lparr>error := EIO\<rparr>, w1)" by (simp add: lcd_transfer_def)
    with assms have "r = - 1" "d' = d\<lparr>error := EIO\<rparr>" "w' = w1" by auto
    with s1 True show ?thesis by simp
  next
    case f1: False
    obtain f2 w2 where c2: "(if fourBits d then io_chain c (write_pulse d rs (push_bit 4 b)) w1 else (False, w1)) = (f2, w2)" 
      by (cases "(if fourBits d then io_chain c (write_pulse d rs (push_bit 4 b)) w1 else (False, w1))")
    have s2: "seg c w1 f2 w2" using c2 by (auto split: if_splits intro: seg_chain seg_refl)
    show ?thesis
    proof (cases f2)
      case True
      with c1 f1 c2 have "lcd_transfer c d rs b w = Some (- 1, d\<lparr>error := EIO\<rparr>, w2)" by (simp add: lcd_transfer_def)
      with assms have "r = - 1" "d' = d\<lparr>error := EIO\<rparr>" "w' = w2" by auto
      with s1 s2 f1 True show ?thesis by (auto intro: seg_trans)
    next
      case f2: False
      from transfer_chain[of c d rs b w w1 w2] c1 c2 f1 f2
      have w2: "w2 = w @ transfer_calls d rs b" "all_ok c w (transfer_calls d rs b)" by simp_all
      have s12: "seg c w False w2" using s1 s2 f1 f2 by (auto intro: seg_trans)
      show ?thesis
      proof (cases "writeOnly d")
        case True
        with c1 f1 c2 f2 have "lcd_transfer c d rs b w =
            Some (delay c w2 (busTiming_busyHoldShort d), d, w2 @ [Delay (busTiming_busyHoldShort d)])"
          by (simp add: lcd_transfer_def lcdDelay_def)
        with assms have "r = delay c w2 (busTiming_busyHoldShort d)" "d' = d"
           "w' = w2 @ [Delay (busTiming_busyHoldShort d)]" by auto
        with w2 True show ?thesis by simp
      next
        case wo: False
        obtain f3 w3 where c3: "io_chain c [BusIO True False False 0, Delay (busTiming_addressSetup d)] w2 = (f3, w3)"
          by (cases "io_chain c [BusIO True False False 0, Delay (busTiming_addressSetup d)] w2")
        note s3 = seg_chain[OF c3]
        show ?thesis
        proof (cases f3)
          case True
          with c1 f1 c2 f2 wo c3 have "lcd_transfer c d rs b w = Some (- 1, d\<lparr>error := EIO\<rparr>, w3)" by (simp add: lcd_transfer_def)
          with assms have "r = - 1" "d' = d\<lparr>error := EIO\<rparr>" "w' = w3" by auto
          with s12 s3 True show ?thesis by (auto intro: seg_trans)
        next
          case f3: False
          have s123: "seg c w False w3" using s12 s3 f3 by (auto intro: seg_trans)
          have l3: "length w2 \<le> length w3" using s3 by (rule seg_length)
          from assms c1 f1 c2 f2 wo c3 f3 obtain f4 w4 where c4: "busy_wait c d w3 = Some (f4, w4)"
            by (cases "busy_wait c d w3") (auto simp: lcd_transfer_def)
          note s4 = seg_busy_wait[OF c4]
          show ?thesis
          proof (cases f4)
            case True
            with c1 f1 c2 f2 wo c3 f3 c4 have "lcd_transfer c d rs b w = Some (- 1, d\<lparr>error := EIO\<rparr>, w4)" by (simp add: lcd_transfer_def)
            with assms have "r = - 1" "d' = d\<lparr>error := EIO\<rparr>" "w' = w4" by auto
            with s123 s4 True show ?thesis by (auto intro: seg_trans)
          next
            case f4: False
            have s: "seg c w False w4" using s123 s4 f4 by (auto intro: seg_trans)
            have "length w2 \<le> length w4" using l3 seg_length[OF s4] by simp
            moreover from c1 f1 c2 f2 wo c3 f3 c4 f4 have "lcd_transfer c d rs b w =
                Some (busIO c w4 False False False 0, d, w4 @ [BusIO False False False 0])"
              by (simp add: lcd_transfer_def lcdBusIO_def)
            with assms have "r = busIO c w4 False False False 0" "d' = d"
               "w' = w4 @ [BusIO False False False 0]" by auto
            ultimately show ?thesis using s w2 wo by auto
          qed
        qed
      qed
    qed
  qed
qed

lemmas fixture_defs = example_driver_def lcdLoadDefaultTiming_def quiet_def

section \<open>Claims about the cursor model\<close>

text \<open>
  C1. For a driver whose cursor satisfies \<open>0 \<le> x < width\<close> and \<open>0 \<le> y < height\<close>,
  the address decoder yields \<open>x + 64 * (y mod 2) + width * (if y \<ge> 2 then 1 else 0)\<close>.
  On a 16 by 2 display set-cursor(5, 1) sends the set-DDRAM-address command
  for address 69, on a 20 by 4 display set-cursor(0, 2) the one for address 20.
\<close>

theorem decode_cursor_address:
  "(cursor_valid d \<longrightarrow>
      LCD_DECODE_CURSOR d = sint (cursor_x d) + 64 * (sint (cursor_y d) mod 2)
         + uint (dimensions_width d) * (if sint (cursor_y d) \<ge> 2 then 1 else 0))
   \<and> (dimensions_width d = 16 \<and> dimensions_height d = 2 \<longrightarrow>
        lcdSetCursor c d 5 1 w =
          returned (lcdCommand c (d\<lparr>cursor_x := 5, cursor_y := 1\<rparr>) (word_of_int (LCD_CMD_DADDR 69)) w))
   \<and> (dimensions_width d = 20 \<and> dimensions_height d = 4 \<longrightarrow>
        lcdSetCursor c d 0 2 w =
          returned (lcdCommand c (d\<lparr>cursor_x := 0, cursor_y := 2\<rparr>) (word_of_int (LCD_CMD_DADDR 20)) w))"
proof (intro conjI impI)
  assume "cursor_valid d"
  then show "LCD_DECODE_CURSOR d = sint (cursor_x d) + 64 * (sint (cursor_y d) mod 2)
         + uint (dimensions_width d) * (if sint (cursor_y d) \<ge> 2 then 1 else 0)"
    by (intro decode_valid) (simp add: cursor_valid_def)
next
  assume "dimensions_width d = 16 \<and> dimensions_height d = 2"
  then show "lcdSetCursor c d 5 1 w =
          returned (lcdCommand c (d\<lparr>cursor_x := 5, cursor_y := 1\<rparr>) (word_of_int (LCD_CMD_DADDR 69)) w)"
    by (simp add: lcdSetCursor_def Let_def LCD_DECODE_CURSOR_def signed_modulo_int_def)
next
  assume "dimensions_width d = 20 \<and> dimensions_height d = 4"
  then show "lcdSetCursor c d 0 2 w =
          returned (lcdCommand c (d\<lparr>cursor_x := 0, cursor_y := 2\<rparr>) (word_of_int (LCD_CMD_DADDR 20)) w)"
    by (simp add: lcdSetCursor_def Let_def LCD_DECODE_CURSOR_def signed_modulo_int_def)
qed

theorem decode_cursor_address_witness:
  "cursor_valid ((example_driver 16 2)\<lparr>cursor_x := 5, cursor_y := 1\<rparr>)
   \<and> LCD_DECODE_CURSOR ((example_driver 16 2)\<lparr>cursor_x := 5, cursor_y := 1\<rparr>) = 69
   \<and> lcdSetCursor quiet (example_driver 16 2) 5 1 [] =
       returned (lcdCommand quiet ((example_driver 16 2)\<lparr>cursor_x := 5, cursor_y := 1\<rparr>) 0xC5 [])
   \<and> lcdSetCursor quiet (example_driver 20 4) 0 2 [] =
       returned (lcdCommand quiet ((example_driver 20 4)\<lparr>cursor_x := 0, cursor_y := 2\<rparr>) 0x94 [])"
  using decode_cursor_address[of "(example_driver 16 2)\<lparr>cursor_x := 5, cursor_y := 1\<rparr>" quiet "[]"]
    decode_cursor_address[of "example_driver 16 2" quiet "[]"]
    decode_cursor_address[of "example_driver 20 4" quiet "[]"]
  by (simp add: fixture_defs cursor_valid_def LCD_CMD_DADDR_def)

text \<open>
  C4, as stated: with \<open>width * height \<le> 80\<close> the decoded address lies in \<open>[0, 80)\<close>
  and the decoder is injective on the valid positions. On a 20 by 4 display the
  position (0, 3) decodes to 84, and on a 16 by 5 display the positions (0, 2)
  and (0, 4) decode to the same address.
\<close>

theorem decode_range_counterexample:
  "uint (dimensions_width (example_driver 20 4)) * uint (dimensions_height (example_driver 20 4)) \<le> 80
   \<and> cursor_valid ((example_driver 20 4)\<lparr>cursor_y := 3\<rparr>)
   \<and> LCD_DECODE_CURSOR ((example_driver 20 4)\<lparr>cursor_y := 3\<rparr>) = 84
   \<and> \<not> LCD_DECODE_CURSOR ((example_driver 20 4)\<lparr>cursor_y := 3\<rparr>) < 80
   \<and> uint (dimensions_width (example_driver 16 5)) * uint (dimensions_height (example_driver 16 5)) \<le> 80
   \<and> cursor_valid ((example_driver 16 5)\<lparr>cursor_y := 2\<rparr>)
   \<and> cursor_valid ((example_driver 16 5)\<lparr>cursor_y := 4\<rparr>)
   \<and> LCD_DECODE_CURSOR ((example_driver 16 5)\<lparr>cursor_y := 2\<rparr>)
       = LCD_DECODE_CURSOR ((example_driver 16 5)\<lparr>cursor_y := 4\<rparr>)
   \<and> cursor_y ((example_driver 16 5)\<lparr>cursor_y := 2\<rparr>) \<noteq> cursor_y ((example_driver 16 5)\<lparr>cursor_y := 4\<rparr>)"
  by (simp add: fixture_defs cursor_valid_def LCD_DECODE_CURSOR_def signed_modulo_int_def)

text \<open>
  C4, amended: with \<open>width \<ge> 1\<close>, \<open>height \<ge> 1\<close>, \<open>width * height \<le> 80\<close> and a valid
  cursor the decoded address lies in \<open>[0, 104)\<close>, and for displays of at most
  four rows the decoder is injective on the valid positions.
\<close>

theorem decode_range_injective:
  assumes "1 \<le> uint (dimensions_width d)" "1 \<le> uint (dimensions_height d)"
    and "uint (dimensions_width d) * uint (dimensions_height d) \<le> 80"
    and "cursor_valid d"
  shows "0 \<le> LCD_DECODE_CURSOR d \<and> LCD_DECODE_CURSOR d < 104 \<and>
     (uint (dimensions_height d) \<le> 4 \<longrightarrow>
        (\<forall>d'. dimensions_width d' = dimensions_width d \<and> dimensions_height d' = dimensions_height d
               \<and> cursor_valid d' \<and> LCD_DECODE_CURSOR d' = LCD_DECODE_CURSOR d
             \<longrightarrow> cursor_x d' = cursor_x d \<and> cursor_y d' = cursor_y d))"
  using decode_range[OF assms(3,4)] decode_inj[OF assms(3) _ assms(4)] by blast

theorem decode_range_injective_witness:
  "cursor_valid ((example_driver 20 4)\<lparr>cursor_x := 19, cursor_y := 3\<rparr>)
   \<and> LCD_DECODE_CURSOR ((example_driver 20 4)\<lparr>cursor_x := 19, cursor_y := 3\<rparr>) = 103
   \<and> 0 \<le> LCD_DECODE_CURSOR ((example_driver 20 4)\<lparr>cursor_x := 19, cursor_y := 3\<rparr>)
   \<and> LCD_DECODE_CURSOR ((example_driver 20 4)\<lparr>cursor_x := 19, cursor_y := 3\<rparr>) < 104"
  using decode_range_injective[of "(example_driver 20 4)\<lparr>cursor_x := 19, cursor_y := 3\<rparr>"]
  by (simp add: fixture_defs cursor_valid_def LCD_DECODE_CURSOR_def signed_modulo_int_def)




section \<open>Claims about initialisation\<close>

text \<open>
  C9. With an eight-bit bus configured, \<^verbatim>\<open>lcdInit\<close> ends in the failing assertion:
  it makes no collaborator call and does not return.
\<close>

theorem init_eight_bit_asserts:
  "\<not> fourBits d \<Longrightarrow> lcdInit c d w = Some (AssertionFailed (d\<lparr>cursor_x := 0, cursor_y := 0\<rparr>) w)"
  by (simp add: lcdInit_def Let_def)

theorem init_eight_bit_asserts_witness:
  "lcdInit quiet ((example_driver 16 2)\<lparr>fourBits := False\<rparr>) []
     = Some (AssertionFailed ((example_driver 16 2)\<lparr>fourBits := False\<rparr>) [])"
  using init_eight_bit_asserts[of "(example_driver 16 2)\<lparr>fourBits := False\<rparr>" quiet "[]"]
  by (simp add: fixture_defs)

section \<open>Fail-fast behaviour of the operations\<close>

lemma fs_ok: "fail_stop c w 0 w' \<Longrightarrow> seg c w False w'"
  by (simp add: fail_stop_def)

lemma fs_trans: "seg c w False w1 \<Longrightarrow> fail_stop c w1 r w2 \<Longrightarrow> fail_stop c w r w2"
  by (auto simp: fail_stop_def intro: seg_trans)


lemma fsI: "seg c w f w' \<Longrightarrow> (f \<Longrightarrow> r \<noteq> 0) \<Longrightarrow> fail_stop c w r w'"
  by (cases f) (auto simp: fail_stop_def)

lemma seg_last_call:
  assumes "seg c w False w1" shows "seg c w (call_fails c w1 e) (w1 @ [e])"
proof -
  have "seg c w1 (call_fails c w1 e) (w1 @ [e])" by (rule segI[where u = "[e]"]) auto
  with assms show ?thesis by (rule seg_trans)
qed

lemma transfer_fs:
  assumes "lcd_transfer c d rs b w = Some (r, d', w')"
  shows "fail_stop c w r w'" and "err_only d d'" and "r = 0 \<Longrightarrow> d' = d"
proof -
  note cs = lcd_transfer_cases[OF assms]
  show "err_only d d'" using cs by (auto simp: err_only_def)
  show "r = 0 \<Longrightarrow> d' = d" using cs by auto
  from cs show "fail_stop c w r w'"
  proof (elim disjE conjE exE)
    assume "r = - 1" "seg c w True w'"
    then show ?thesis by (simp add: fail_stop_def)
  next
    assume a: "all_ok c w (transfer_calls d rs b)"
      "w' = w @ transfer_calls d rs b @ [Delay (busTiming_busyHoldShort d)]"
      "r = delay c (w @ transfer_calls d rs b) (busTiming_busyHoldShort d)"
    have "seg c w False (w @ transfer_calls d rs b)" using a(1) by (intro segI[where u = "transfer_calls d rs b"]) auto
    from seg_last_call[OF this, of "Delay (busTiming_busyHoldShort d)"] a(2,3)
    show ?thesis by (auto elim!: fsI)
  next
    fix w4 assume a: "seg c w False w4" "w' = w4 @ [BusIO False False False 0]" "r = busIO c w4 False False False 0"
    from seg_last_call[OF a(1), of "BusIO False False False 0"] a(2,3)
    show ?thesis by (auto elim!: fsI)
  qed
qed

lemmas command_fs = transfer_fs[of _ _ False, folded lcdCommand_def]
lemmas write_fs = transfer_fs[of _ _ True, folded lcdWrite_def]

lemma ret_seq_cases:
  assumes "(case X of None \<Rightarrow> None
            | Some (r1, d1, w1) \<Rightarrow> if r1 \<noteq> 0 then Some (- 1, d1, w1) else K r1 d1 w1) = Some (r, d', w')"
  obtains (fail) r1 where "X = Some (r1, d', w')" "r1 \<noteq> 0" "r = - 1"
        | (cont) d1 w1 where "X = Some (0, d1, w1)" "K 0 d1 w1 = Some (r, d', w')"
  using assms by (auto split: option.splits if_splits)

lemma delay_seq_cases:
  assumes "(case lcdDelay c t w1 of (r2, w2) \<Rightarrow> if r2 \<noteq> 0 then Some (- 1, d1, w2) else K r2 w2) = Some (r, d', w')"
  obtains (fail) "delay c w1 t \<noteq> 0" "r = - 1" "d' = d1" "w' = w1 @ [Delay t]"
        | (cont) "delay c w1 t = 0" "K 0 (w1 @ [Delay t]) = Some (r, d', w')"
  using assms by (auto simp: lcdDelay_def split: if_splits)

lemma seg_delay_step: "seg c w False w1 \<Longrightarrow> seg c w (delay c w1 t \<noteq> 0) (w1 @ [Delay t])"
  using seg_last_call[of c w w1 "Delay t"] by simp



section \<open>Write-only mode\<close>

lemma transfer_write_only:
  assumes "writeOnly d" "all_ok c w (transfer_calls d rs b)"
  shows "lcd_transfer c d rs b w =
           Some (delay c (w @ transfer_calls d rs b) (busTiming_busyHoldShort d), d,
                 w @ transfer_calls d rs b @ [Delay (busTiming_busyHoldShort d)])"
proof -
  from assms(2) have 1: "io_chain c (write_pulse d rs b) w = (False, w @ write_pulse d rs b)"
    by (intro io_chain_ok) (simp add: transfer_calls_def all_ok_append)
  from assms(2) have 2: "fourBits d \<Longrightarrow> io_chain c (write_pulse d rs (push_bit 4 b)) (w @ write_pulse d rs b)
       = (False, (w @ write_pulse d rs b) @ write_pulse d rs (push_bit 4 b))"
    by (intro io_chain_ok) (simp add: transfer_calls_def all_ok_append)
  show ?thesis using assms(1) 1 2
    by (simp add: lcd_transfer_def transfer_calls_def lcdDelay_def)
qed

lemma no_read_transfer_calls: "\<not> list_ex is_read (transfer_calls d rs b @ [Delay t])"
  by (simp add: transfer_calls_def write_pulse_def)

lemma no_read_init_calls: "\<not> list_ex is_read (init_reset_calls d)" "\<not> list_ex is_read (init_request_calls d)"
  by (simp_all add: init_reset_calls_def init_request_calls_def Let_def)

lemma no_read_take: "\<not> list_ex is_read xs \<Longrightarrow> \<not> list_ex is_read (take n xs)"
  by (auto simp: list_ex_iff dest: in_set_takeD)

lemma transfer_write_only_total:
  assumes "writeOnly d"
  shows "\<exists>r d' n. lcd_transfer c d rs b w =
            Some (r, d', w @ take n (transfer_calls d rs b @ [Delay (busTiming_busyHoldShort d)]))"
proof -
  let ?full = "transfer_calls d rs b @ [Delay (busTiming_busyHoldShort d)]"
  obtain f1 w1 where c1: "io_chain c (write_pulse d rs b) w = (f1, w1)" by (cases "io_chain c (write_pulse d rs b) w")
  from io_chain_prefix[OF c1] obtain n1 where n1: "n1 \<le> length (write_pulse d rs b)" "w1 = w @ take n1 (write_pulse d rs b)"
    "\<not> f1 \<Longrightarrow> n1 = length (write_pulse d rs b)" by (auto split: if_splits)
  show ?thesis
  proof (cases f1)
    case True
    with c1 have "lcd_transfer c d rs b w = Some (- 1, d\<lparr>error := EIO\<rparr>, w1)" by (simp add: lcd_transfer_def)
    moreover have "w1 = w @ take n1 ?full" using n1 by (simp add: transfer_calls_def)
    ultimately show ?thesis by blast
  next
    case f1: False
    with n1 have w1: "w1 = w @ write_pulse d rs b" by simp
    obtain f2 w2 where c2: "(if fourBits d then io_chain c (write_pulse d rs (push_bit 4 b)) w1 else (False, w1)) = (f2, w2)" 
      by (cases "(if fourBits d then io_chain c (write_pulse d rs (push_bit 4 b)) w1 else (False, w1))")
    show ?thesis
    proof (cases f2)
      case True
      with c2 have four: "fourBits d" and c2': "io_chain c (write_pulse d rs (push_bit 4 b)) w1 = (True, w2)" by (auto split: if_splits)
      from io_chain_prefix[OF c2'] obtain n2 where n2: "n2 \<le> length (write_pulse d rs (push_bit 4 b))"
         "w2 = w1 @ take n2 (write_pulse d rs (push_bit 4 b))" by auto
      from c1 f1 c2 True have "lcd_transfer c d rs b w = Some (- 1, d\<lparr>error := EIO\<rparr>, w2)" by (simp add: lcd_transfer_def)
      moreover have "w2 = w @ take (length (write_pulse d rs b) + n2) ?full"
        using n2 w1 four by (simp add: transfer_calls_def)
      ultimately show ?thesis by blast
    next
      case f2: False
      from transfer_chain[of c d rs b w w1 w2] c1 c2 f1 f2
      have w2: "w2 = w @ transfer_calls d rs b" by simp
      from c1 f1 c2 f2 assms have "lcd_transfer c d rs b w =
          Some (delay c w2 (busTiming_busyHoldShort d), d, w2 @ [Delay (busTiming_busyHoldShort d)])"
        by (simp add: lcd_transfer_def lcdDelay_def)
      moreover have "w2 @ [Delay (busTiming_busyHoldShort d)] = w @ take (length ?full) ?full" using w2 by simp
      ultimately show ?thesis by metis
    qed
  qed
qed

lemma transfer_write_only_no_read:
  assumes "writeOnly d"
  shows "\<exists>r d' u. lcd_transfer c d rs b w = Some (r, d', w @ u) \<and> \<not> list_ex is_read u"
proof -
  from transfer_write_only_total[OF assms, of c rs b w] obtain r d' n where
    "lcd_transfer c d rs b w = Some (r, d', w @ take n (transfer_calls d rs b @ [Delay (busTiming_busyHoldShort d)]))" by blast
  moreover have "\<not> list_ex is_read (take n (transfer_calls d rs b @ [Delay (busTiming_busyHoldShort d)]))"
    by (rule no_read_take) (rule no_read_transfer_calls)
  ultimately show ?thesis by blast
qed

lemma chain_no_read:
  assumes "io_chain c cs w = (f, w')" "\<not> list_ex is_read cs"
  shows "\<exists>u. w' = w @ u \<and> \<not> list_ex is_read u"
proof -
  from io_chain_prefix[OF assms(1)] obtain n where "w' = w @ take n cs" by blast
  with no_read_take[of cs n] assms(2) show ?thesis by blast
qed

lemma init4_write_only_no_read:
  assumes "writeOnly d"
  shows "\<exists>r d' u. lcdInit4Bit c d w = Some (r, d', w @ u) \<and> \<not> list_ex is_read u"
proof -
  obtain f1 w1 where c1: "io_chain c (init_reset_calls d) w = (f1, w1)" by (cases "io_chain c (init_reset_calls d) w")
  from chain_no_read[OF c1 no_read_init_calls(1)] obtain u1 where u1: "w1 = w @ u1" "\<not> list_ex is_read u1"
    by blast
  show ?thesis
  proof (cases f1)
    case True
    with c1 have "lcdInit4Bit c d w = Some (- 1, d\<lparr>error := EIO\<rparr>, w1)" by (simp add: lcdInit4Bit_def)
    with u1 show ?thesis by blast
  next
    case f1: False
    obtain f2 w2 where c2: "io_chain c (init_request_calls d) w1 = (f2, w2)" by (cases "io_chain c (init_request_calls d) w1")
    from chain_no_read[OF c2 no_read_init_calls(2)] obtain u2 where u2: "w2 = w1 @ u2" "\<not> list_ex is_read u2"
      by blast
    show ?thesis
    proof (cases f2)
      case True
      with c1 f1 c2 have "lcdInit4Bit c d w = Some (- 1, d\<lparr>error := EIO\<rparr>, w2)" by (simp add: lcdInit4Bit_def)
      moreover have "w2 = w @ (u1 @ u2)" "\<not> list_ex is_read (u1 @ u2)" using u1 u2 by simp_all
      ultimately show ?thesis by blast
    next
      case f2: False
      from transfer_write_only_no_read[OF assms, of c False "word_of_int (LCD_CMD_FUNCTION False False False)" w2]
      obtain r d' u3 where u3: "lcdCommand c d (word_of_int (LCD_CMD_FUNCTION False False False)) w2 = Some (r, d', w2 @ u3)"
        "\<not> list_ex is_read u3" by (auto simp: lcdCommand_def)
      from c1 f1 c2 f2 u3 have "lcdInit4Bit c d w = Some (r, d', w2 @ u3)" by (simp add: lcdInit4Bit_def)
      moreover have "w2 @ u3 = w @ (u1 @ u2 @ u3)" "\<not> list_ex is_read (u1 @ u2 @ u3)" using u1 u2 u3 by simp_all
      ultimately show ?thesis by metis
    qed
  qed
qed

lemmas run_defs = lcdCommand_def lcdWrite_def lcd_transfer_def write_pulse_def lcdBusIO_def lcdDelay_def

text \<open>
  C10. In write-only mode \<^verbatim>\<open>lcdCommand\<close>, \<^verbatim>\<open>lcdWrite\<close> and \<^verbatim>\<open>lcdInit4Bit\<close> always
  return, and none of the calls they add to the trace is a bus call with the
  read flag set: the polling path is not entered.
\<close>

theorem write_only_never_reads:
  assumes "writeOnly d"
  shows "(\<exists>r d' u. lcdCommand c d command w = Some (r, d', w @ u) \<and> \<not> list_ex is_read u)
       \<and> (\<exists>r d' u. lcdWrite c d data w = Some (r, d', w @ u) \<and> \<not> list_ex is_read u)
       \<and> (\<exists>r d' u. lcdInit4Bit c d w = Some (r, d', w @ u) \<and> \<not> list_ex is_read u)"
  using transfer_write_only_no_read[OF assms] init4_write_only_no_read[OF assms]
  unfolding lcdCommand_def lcdWrite_def by blast

theorem write_only_never_reads_witness:
  "writeOnly (example_driver 16 2)
   \<and> lcdCommand quiet (example_driver 16 2) 0x28 [] =
       Some (0, example_driver 16 2,
         [BusIO False False False 0x28, Delay 10, BusIO False False True 0x28, Delay 10,
          BusIO False False False 0x28, Delay 10, BusIO False False False 0x80, Delay 10,
          BusIO False False True 0x80, Delay 10, BusIO False False False 0x80, Delay 10,
          Delay 500])
   \<and> lcdWrite quiet ((example_driver 16 2)\<lparr>fourBits := False\<rparr>) 0x41 [] =
       Some (0, (example_driver 16 2)\<lparr>fourBits := False\<rparr>,
         [BusIO False True False 0x41, Delay 10, BusIO False True True 0x41, Delay 10,
          BusIO False True False 0x41, Delay 10, Delay 500])"
  using write_only_never_reads[where d = "example_driver 16 2" and c = quiet and w = "[]"]
  by (simp add: run_defs fixture_defs)

text \<open>
  C7. In write-only mode a transfer ends with the single delay
  \<^verbatim>\<open>busyHoldShort\<close>. \<^verbatim>\<open>lcdHome\<close> then waits \<^verbatim>\<open>busyHoldLong\<close>; \<^verbatim>\<open>lcdClear\<close> waits
  \<^verbatim>\<open>busyHoldShort\<close> a second time and never \<^verbatim>\<open>busyHoldLong\<close>. The runs below are
  on a four-bit, write-only 16 by 2 display with the default timing (short
  hold 500, long hold 50000).
\<close>

theorem clear_waits_short_hold:
  "lcdClear quiet (example_driver 16 2) [] =
     Some (0, example_driver 16 2,
       [BusIO False False False 1, Delay 10, BusIO False False True 1, Delay 10,
        BusIO False False False 1, Delay 10, BusIO False False False 16, Delay 10,
        BusIO False False True 16, Delay 10, BusIO False False False 16, Delay 10,
        Delay 500, Delay 500])
   \<and> lcdHome quiet (example_driver 16 2) [] =
     Some (0, example_driver 16 2,
       [BusIO False False False 2, Delay 10, BusIO False False True 2, Delay 10,
        BusIO False False False 2, Delay 10, BusIO False False False 32, Delay 10,
        BusIO False False True 32, Delay 10, BusIO False False False 32, Delay 10,
        Delay 500, Delay 50000])
   \<and> busTiming_busyHoldShort (example_driver 16 2) = 500
   \<and> busTiming_busyHoldLong (example_driver 16 2) = 50000"
  by (simp add: lcdClear_def lcdHome_def run_defs fixture_defs LCD_CMD_CLEAR_def LCD_CMD_HOME_def)

section \<open>Busy-flag polling\<close>

lemma poll_body_ok:
  assumes "all_ok c w (poll_cycle d)"
  shows "poll_body c d w = (False, busIO c (w @ poll_head d) True False True 0, w @ poll_cycle d)"
proof -
  from assms have 1: "io_chain c (poll_head d) w = (False, w @ poll_head d)"
    by (intro io_chain_ok) (simp add: poll_cycle_def all_ok_append)
  from assms have 2: "\<not> busIO c (w @ poll_head d) True False True 0 < 0"
    by (simp add: poll_cycle_def all_ok_append)
  from assms have 3: "io_chain c (poll_tail d) ((w @ poll_head d) @ [BusIO True False True 0])
      = (False, ((w @ poll_head d) @ [BusIO True False True 0]) @ poll_tail d)"
    by (intro io_chain_ok) (simp add: poll_cycle_def all_ok_append)
  show ?thesis using 1 2 3 by (simp add: poll_body_def lcdBusIO_def poll_cycle_def)
qed

lemma busy_wait_cycles:
  assumes "all_ok c w (concat (replicate (Suc N) (poll_cycle d)))"
    and "\<forall>i<N. bit (busIO c (w @ concat (replicate i (poll_cycle d)) @ poll_head d) True False True 0) 7"
    and "\<not> bit (busIO c (w @ concat (replicate N (poll_cycle d)) @ poll_head d) True False True 0) 7"
  shows "busy_wait c d w = Some (False, w @ concat (replicate (Suc N) (poll_cycle d)))"
  using assms
proof (induction N arbitrary: w)
  case 0
  then have "poll_body c d w = (False, busIO c (w @ poll_head d) True False True 0, w @ poll_cycle d)"
    by (intro poll_body_ok) simp
  with 0(3) show ?case by (subst busy_wait.simps) simp
next
  case (Suc N)
  from Suc.prems(1) have ok1: "all_ok c w (poll_cycle d)"
    and ok2: "all_ok c (w @ poll_cycle d) (concat (replicate (Suc N) (poll_cycle d)))"
    by (simp_all add: all_ok_append)
  from Suc.prems(2) have b0: "bit (busIO c (w @ poll_head d) True False True 0) 7"
    by (drule_tac x = 0 in spec) simp
  have bs: "\<forall>i<N. bit (busIO c ((w @ poll_cycle d) @ concat (replicate i (poll_cycle d)) @ poll_head d) True False True 0) 7"
  proof (intro allI impI)
    fix i assume "i < N"
    with Suc.prems(2) have "bit (busIO c (w @ concat (replicate (Suc i) (poll_cycle d)) @ poll_head d) True False True 0) 7"
      by (drule_tac x = "Suc i" in spec) simp
    then show "bit (busIO c ((w @ poll_cycle d) @ concat (replicate i (poll_cycle d)) @ poll_head d) True False True 0) 7"
      by simp
  qed
  from Suc.prems(3) have cl: "\<not> bit (busIO c ((w @ poll_cycle d) @ concat (replicate N (poll_cycle d)) @ poll_head d) True False True 0) 7"
    by simp
  from Suc.IH[OF ok2 bs cl] have rec: "busy_wait c d (w @ poll_cycle d)
      = Some (False, (w @ poll_cycle d) @ concat (replicate (Suc N) (poll_cycle d)))" .
  from poll_body_ok[OF ok1] b0 rec show ?case
    by (subst busy_wait.simps) simp
qed

lemma transfer_polled:
  assumes ro: "\<not> writeOnly d"
    and ok: "all_ok c w (polled_calls d rs b (Suc N) @ [BusIO False False False 0])"
    and busy: "\<forall>i<N. bit (busIO c (w @ polled_calls d rs b i @ poll_head d) True False True 0) 7"
    and clear: "\<not> bit (busIO c (w @ polled_calls d rs b N @ poll_head d) True False True 0) 7"
  shows "lcd_transfer c d rs b w =
           Some (busIO c (w @ polled_calls d rs b (Suc N)) False False False 0, d,
                 w @ polled_calls d rs b (Suc N) @ [BusIO False False False 0])"
proof -
  let ?turn = "[BusIO True False False 0, Delay (busTiming_addressSetup d)]"
  let ?w3 = "w @ transfer_calls d rs b @ ?turn"
  from ok have okt: "all_ok c w (transfer_calls d rs b)"
    and oks: "all_ok c (w @ transfer_calls d rs b) ?turn"
    and okc: "all_ok c ?w3 (concat (replicate (Suc N) (poll_cycle d)))"
    unfolding polled_calls_def all_ok_append by simp_all
  from okt have 1: "io_chain c (write_pulse d rs b) w = (False, w @ write_pulse d rs b)"
    by (intro io_chain_ok) (simp add: transfer_calls_def all_ok_append)
  from okt have 2: "fourBits d \<Longrightarrow> io_chain c (write_pulse d rs (push_bit 4 b)) (w @ write_pulse d rs b)
       = (False, (w @ write_pulse d rs b) @ write_pulse d rs (push_bit 4 b))"
    by (intro io_chain_ok) (simp add: transfer_calls_def all_ok_append)
  have 12: "(if fourBits d then io_chain c (write_pulse d rs (push_bit 4 b)) (w @ write_pulse d rs b)
               else (False, w @ write_pulse d rs b)) = (False, w @ transfer_calls d rs b)"
    using 2 by (simp add: transfer_calls_def)
  from oks have 3: "io_chain c ?turn (w @ transfer_calls d rs b) = (False, ?w3)"
    using io_chain_ok[of c "w @ transfer_calls d rs b" ?turn] by (simp del: io_chain.simps)
  have bs: "\<forall>i<N. bit (busIO c (?w3 @ concat (replicate i (poll_cycle d)) @ poll_head d) True False True 0) 7"
    using busy by (simp add: polled_calls_def)
  have cl: "\<not> bit (busIO c (?w3 @ concat (replicate N (poll_cycle d)) @ poll_head d) True False True 0) 7"
    using clear by (simp add: polled_calls_def)
  from busy_wait_cycles[OF okc bs cl]
  have 4: "busy_wait c d ?w3 = Some (False, ?w3 @ concat (replicate (Suc N) (poll_cycle d)))" .
  have e: "?w3 @ concat (replicate (Suc N) (poll_cycle d)) = w @ polled_calls d rs b (Suc N)"
    by (simp add: polled_calls_def)
  show ?thesis
    unfolding lcd_transfer_def using ro 1 12 3 4 e
    by (simp add: lcdBusIO_def del: io_chain.simps)
qed

lemmas polled_defs = polled_calls_def transfer_calls_def write_pulse_def poll_cycle_def poll_head_def poll_tail_def

text \<open>
  C6, as stated: after the polling, send-command performs a final dummy read
  cycle. On a controller that is never busy the last call of \<^verbatim>\<open>lcdCommand\<close> is
  \<^verbatim>\<open>lcdBusIO(driver, 0, 0, 0, 0)\<close>: the read flag is clear.
\<close>

theorem final_call_counterexample:
  "lcdCommand quiet ((example_driver 16 2)\<lparr>fourBits := False, writeOnly := False\<rparr>) 1 [] =
     Some (0, (example_driver 16 2)\<lparr>fourBits := False, writeOnly := False\<rparr>,
       [BusIO False False False 1, Delay 10, BusIO False False True 1, Delay 10,
        BusIO False False False 1, Delay 10,
        BusIO True False False 0, Delay 10,
        Delay 50, BusIO True False True 0, Delay 10, BusIO True False True 0, BusIO True False False 0,
        BusIO False False False 0])
   \<and> \<not> is_read (BusIO False False False 0)"
  using transfer_polled[where c = quiet and w = "[]" and N = 0 and rs = False and b = 1
      and d = "(example_driver 16 2)\<lparr>fourBits := False, writeOnly := False\<rparr>"]
  by (simp add: lcdCommand_def polled_defs fixture_defs)

text \<open>
  C6, amended: on a read-capable bus, when every collaborator call succeeds
  and the status read of each of the first \<open>N\<close> polling cycles has bit 7 set
  and that of the next cycle has it clear, \<^verbatim>\<open>lcdCommand\<close> performs exactly \<open>N + 1\<close>
  polling cycles, then one bus call with the read flag clear (\<open>rw = 0\<close>,
  \<open>rs = 0\<close>, \<open>en = 0\<close>, data 0), and returns the non-negative result of that
  call, leaving the driver unchanged.
\<close>

theorem busy_poll_cycles:
  assumes "\<not> writeOnly d"
    and "all_ok c w (polled_calls d False command (Suc N) @ [BusIO False False False 0])"
    and "\<forall>i<N. bit (busIO c (w @ polled_calls d False command i @ poll_head d) True False True 0) 7"
    and "\<not> bit (busIO c (w @ polled_calls d False command N @ poll_head d) True False True 0) 7"
  shows "lcdCommand c d command w =
           Some (busIO c (w @ polled_calls d False command (Suc N)) False False False 0, d,
                 w @ polled_calls d False command (Suc N) @ [BusIO False False False 0])
       \<and> 0 \<le> busIO c (w @ polled_calls d False command (Suc N)) False False False 0"
proof -
  from assms(2) have "\<not> call_fails c (w @ polled_calls d False command (Suc N)) (BusIO False False False 0)"
    by (simp add: all_ok_append)
  with transfer_polled[OF assms] show ?thesis by (simp add: lcdCommand_def)
qed

theorem busy_poll_cycles_witness:
  "lcdCommand (busy_until 12) ((example_driver 16 2)\<lparr>fourBits := False, writeOnly := False\<rparr>) 1 [] =
     Some (0, (example_driver 16 2)\<lparr>fourBits := False, writeOnly := False\<rparr>,
       [BusIO False False False 1, Delay 10, BusIO False False True 1, Delay 10,
        BusIO False False False 1, Delay 10,
        BusIO True False False 0, Delay 10,
        Delay 50, BusIO True False True 0, Delay 10, BusIO True False True 0, BusIO True False False 0,
        Delay 50, BusIO True False True 0, Delay 10, BusIO True False True 0, BusIO True False False 0,
        BusIO False False False 0])"
  using busy_poll_cycles[where c = "busy_until 12" and w = "[]" and N = 1 and command = 1
      and d = "(example_driver 16 2)\<lparr>fourBits := False, writeOnly := False\<rparr>"]
  by (simp add: polled_defs busy_until_def example_driver_def lcdLoadDefaultTiming_def)

section \<open>Structure of the initialisation\<close>

lemma out_seq_cases:
  assumes "(case X of None \<Rightarrow> None
            | Some (r1, d1, w1) \<Rightarrow> if r1 \<noteq> 0 then Some (Returned (- 1) d1 w1) else K r1 d1 w1) = Some (Returned r d' w')"
  obtains (fail) r1 where "X = Some (r1, d', w')" "r1 \<noteq> 0" "r = - 1"
        | (cont) d1 w1 where "X = Some (0, d1, w1)" "K 0 d1 w1 = Some (Returned r d' w')"
  using assms by (auto split: option.splits if_splits)

lemma out_delay_cases:
  assumes "(case lcdDelay c t w1 of (r2, w2) \<Rightarrow> if r2 \<noteq> 0 then Some (Returned (- 1) d1 w2) else K r2 w2) = Some (Returned r d' w')"
  obtains (fail) "delay c w1 t \<noteq> 0" "r = - 1" "d' = d1" "w' = w1 @ [Delay t]"
        | (cont) "delay c w1 t = 0" "K 0 (w1 @ [Delay t]) = Some (Returned r d' w')"
  using assms by (auto simp: lcdDelay_def split: if_splits)

lemma returned_Some: "returned X = Some (Returned r d' w') \<longleftrightarrow> X = Some (r, d', w')"
  by (auto simp: returned_def split: option.splits)

lemma fs_minus1: "fail_stop c w r w' \<Longrightarrow> fail_stop c w (- 1) w'"
  by (auto simp: fail_stop_def)

lemma init4_cases:
  assumes "lcdInit4Bit c d w = Some (r, d', w')"
  shows "fail_stop c w r w' \<and> err_only d d' \<and>
         (r = 0 \<longrightarrow> d' = d \<and> all_ok c w (init_reset_calls d @ init_request_calls d) \<and>
            lcdCommand c d (word_of_int (LCD_CMD_FUNCTION False False False))
              (w @ init_reset_calls d @ init_request_calls d) = Some (0, d, w'))"
proof -
  obtain f1 w1 where c1: "io_chain c (init_reset_calls d) w = (f1, w1)" by (cases "io_chain c (init_reset_calls d) w")
  note s1 = seg_chain[OF c1]
  show ?thesis
  proof (cases f1)
    case True
    with c1 have "lcdInit4Bit c d w = Some (- 1, d\<lparr>error := EIO\<rparr>, w1)" by (simp add: lcdInit4Bit_def)
    with assms have "r = - 1" "d' = d\<lparr>error := EIO\<rparr>" "w' = w1" by auto
    with s1 True show ?thesis by (simp add: fail_stop_def err_only_def)
  next
    case f1: False
    from io_chain_prefix[OF c1] f1 have w1: "w1 = w @ init_reset_calls d" "all_ok c w (init_reset_calls d)" by auto
    obtain f2 w2 where c2: "io_chain c (init_request_calls d) w1 = (f2, w2)" by (cases "io_chain c (init_request_calls d) w1")
    note s2 = seg_chain[OF c2]
    show ?thesis
    proof (cases f2)
      case True
      with c1 f1 c2 have "lcdInit4Bit c d w = Some (- 1, d\<lparr>error := EIO\<rparr>, w2)" by (simp add: lcdInit4Bit_def)
      with assms have "r = - 1" "d' = d\<lparr>error := EIO\<rparr>" "w' = w2" by auto
      with s1 s2 f1 True show ?thesis by (auto simp: fail_stop_def err_only_def intro: seg_trans)
    next
      case f2: False
      from io_chain_prefix[OF c2] f2 have w2: "w2 = w1 @ init_request_calls d" "all_ok c w1 (init_request_calls d)" by auto
      have s12: "seg c w False w2" using s1 s2 f1 f2 by (auto intro: seg_trans)
      from c1 f1 c2 f2 have "lcdInit4Bit c d w = lcdCommand c d (word_of_int (LCD_CMD_FUNCTION False False False)) w2"
        by (simp add: lcdInit4Bit_def)
      with assms have cmd: "lcdCommand c d (word_of_int (LCD_CMD_FUNCTION False False False)) w2 = Some (r, d', w')" by simp
      from command_fs[OF cmd] s12 w1 w2 cmd show ?thesis
        by (auto simp: all_ok_append intro: fs_trans)
    qed
  qed
qed

lemma init_calls_cursor:
  "init_reset_calls (d\<lparr>cursor_x := x, cursor_y := y\<rparr>) = init_reset_calls d"
  "init_request_calls (d\<lparr>cursor_x := x, cursor_y := y\<rparr>) = init_request_calls d"
  "transfer_calls (d\<lparr>cursor_x := x, cursor_y := y\<rparr>) rs b = transfer_calls d rs b"
  by (simp_all add: init_reset_calls_def init_request_calls_def transfer_calls_def write_pulse_def)

lemma init_cases:
  assumes "lcdInit c d w = Some (Returned r d' w')"
  shows "fourBits d \<and> fail_stop c w r w' \<and>
     (r = 0 \<and> d' = d\<lparr>cursor_x := 0, cursor_y := 0\<rparr> \<and>
        (\<exists>w1 w2 w3.
           all_ok c w (init_reset_calls d @ init_request_calls d) \<and>
           lcdCommand c (d\<lparr>cursor_x := 0, cursor_y := 0\<rparr>) (word_of_int (LCD_CMD_FUNCTION False False False))
              (w @ init_reset_calls d @ init_request_calls d) = Some (0, d\<lparr>cursor_x := 0, cursor_y := 0\<rparr>, w1) \<and>
           lcdCommand c (d\<lparr>cursor_x := 0, cursor_y := 0\<rparr>)
              (word_of_int (LCD_CMD_FUNCTION False (uint (dimensions_height d) > 1) (largeFont d))) w1
              = Some (0, d\<lparr>cursor_x := 0, cursor_y := 0\<rparr>, w2) \<and>
           delay c w2 (busTiming_busyHoldShort d) = 0 \<and>
           lcdCommand c (d\<lparr>cursor_x := 0, cursor_y := 0\<rparr>) (word_of_int LCD_CMD_CLEAR)
              (w2 @ [Delay (busTiming_busyHoldShort d)]) = Some (0, d\<lparr>cursor_x := 0, cursor_y := 0\<rparr>, w3) \<and>
           delay c w3 (busTiming_busyHoldShort d) = 0 \<and>
           w' = w3 @ [Delay (busTiming_busyHoldShort d)])
      \<or> r = - 1 \<and> err_only (d\<lparr>cursor_x := 0, cursor_y := 0\<rparr>) d')"
proof -
  let ?d0 = "d\<lparr>cursor_x := 0, cursor_y := 0\<rparr>"
  from assms have four: "fourBits d" by (auto simp: lcdInit_def Let_def split: if_splits)
  with assms have "(case lcdInit4Bit c ?d0 w of None \<Rightarrow> None
         | Some (r1, d1, w1) \<Rightarrow>
             if r1 \<noteq> 0 then Some (Returned (- 1) d1 w1)
             else
               (case lcdCommand c d1
                       (word_of_int (LCD_CMD_FUNCTION False (uint (dimensions_height d1) > 1) (largeFont d1))) w1 of
                  None \<Rightarrow> None
                | Some (r2, d2, w2) \<Rightarrow>
                    if r2 \<noteq> 0 then Some (Returned (- 1) d2 w2)
                    else
                      (case lcdDelay c (busTiming_busyHoldShort d2) w2 of
                         (r3, w3) \<Rightarrow>
                           if r3 \<noteq> 0 then Some (Returned (- 1) d2 w3)
                           else returned (lcdClear c d2 w3)))) = Some (Returned r d' w')"
    by (simp add: lcdInit_def Let_def)
  then show ?thesis
  proof (cases rule: out_seq_cases)
    case (fail r1)
    from init4_cases[OF fail(1)] fail(2,3) four show ?thesis by (auto intro: fs_minus1)
  next
    case (cont d1 w1)
    from init4_cases[OF cont(1)] have i4: "seg c w False w1" "d1 = ?d0"
       "all_ok c w (init_reset_calls d @ init_request_calls d)"
       "lcdCommand c ?d0 (word_of_int (LCD_CMD_FUNCTION False False False))
              (w @ init_reset_calls d @ init_request_calls d) = Some (0, ?d0, w1)"
      by (simp_all add: fs_ok init_calls_cursor)
    from cont(2) show ?thesis
    proof (cases rule: out_seq_cases)
      case (fail r2)
      from command_fs[OF fail(1)] fail(2,3) i4(1,2) four show ?thesis
        by (auto intro: fs_minus1 fs_trans)
    next
      case (cont d2 w2)
      note c2 = cont
      from command_fs[OF c2(1)] i4(1,2) have f2: "seg c w False w2" "d2 = ?d0"
        by (auto dest: fs_ok intro: seg_trans)
      from c2(2) show ?thesis
      proof (cases rule: out_delay_cases)
        case fail
        with seg_delay_step[OF f2(1), of "busTiming_busyHoldShort d2"] f2(2) four show ?thesis
          by (simp add: fail_stop_def err_only_def)
      next
        case cont
        note c3 = cont
        from seg_delay_step[OF f2(1), of "busTiming_busyHoldShort d2"] c3(1)
        have s3: "seg c w False (w2 @ [Delay (busTiming_busyHoldShort d2)])" by simp
        from c3(2) have clr: "lcdClear c d2 (w2 @ [Delay (busTiming_busyHoldShort d2)]) = Some (r, d', w')"
          by (simp add: returned_Some)
        from clr[unfolded lcdClear_def] show ?thesis
        proof (cases rule: ret_seq_cases)
          case (fail r4)
          from command_fs[OF fail(1)] fail(2,3) s3 f2(2) four show ?thesis
            by (auto intro: fs_minus1 fs_trans)
        next
          case (cont d4 w4)
          note c4 = cont
          from command_fs[OF c4(1)] s3 have f4: "seg c w False w4" "d4 = d2"
            by (auto dest: fs_ok intro: seg_trans)
          from c4(2) show ?thesis
          proof (cases rule: delay_seq_cases)
            case fail
            with seg_delay_step[OF f4(1), of "busTiming_busyHoldShort d4"] f4(2) f2(2) four show ?thesis
              by (simp add: fail_stop_def err_only_def)
          next
            case cont
            with seg_delay_step[OF f4(1), of "busTiming_busyHoldShort d4"] f4(2) f2(2) four
              i4(3,4) c2(1) c3(1) c4(1) i4(2)
            show ?thesis
              by (auto simp: fail_stop_def)
          qed
        qed
      qed
    qed
  qed
qed

lemma command_write_only_ok:
  assumes "writeOnly d" "all_ok c w (transfer_calls d False b @ [Delay (busTiming_busyHoldShort d)])"
  shows "lcdCommand c d b w = Some (0, d, w @ transfer_calls d False b @ [Delay (busTiming_busyHoldShort d)])"
proof -
  from assms(2) have ok: "all_ok c w (transfer_calls d False b)"
    and z: "delay c (w @ transfer_calls d False b) (busTiming_busyHoldShort d) = 0"
    by (simp_all add: all_ok_append)
  from transfer_write_only[OF assms(1) ok] z show ?thesis by (simp add: lcdCommand_def)
qed

lemma clear_write_only_ok:
  assumes "writeOnly d"
    "all_ok c w (transfer_calls d False (word_of_int LCD_CMD_CLEAR) @ [Delay (busTiming_busyHoldShort d)] @ [Delay (busTiming_busyHoldShort d)])"
  shows "lcdClear c d w = Some (0, d\<lparr>cursor_x := 0, cursor_y := 0\<rparr>,
           w @ transfer_calls d False (word_of_int LCD_CMD_CLEAR) @ [Delay (busTiming_busyHoldShort d)] @ [Delay (busTiming_busyHoldShort d)])"
proof -
  let ?tc = "transfer_calls d False (word_of_int LCD_CMD_CLEAR) @ [Delay (busTiming_busyHoldShort d)]"
  from assms(2) have ok: "all_ok c w ?tc" and z: "delay c (w @ ?tc) (busTiming_busyHoldShort d) = 0"
    using all_ok_append[of c w ?tc "[Delay (busTiming_busyHoldShort d)]"] by simp_all
  from command_write_only_ok[OF assms(1) ok] z show ?thesis by (simp add: lcdClear_def lcdDelay_def)
qed

lemma init4_write_only_ok:
  assumes "writeOnly d"
    "all_ok c w (init_reset_calls d @ init_request_calls d @
        transfer_calls d False (word_of_int (LCD_CMD_FUNCTION False False False)) @ [Delay (busTiming_busyHoldShort d)])"
  shows "lcdInit4Bit c d w = Some (0, d, w @ init_reset_calls d @ init_request_calls d @
        transfer_calls d False (word_of_int (LCD_CMD_FUNCTION False False False)) @ [Delay (busTiming_busyHoldShort d)])"
proof -
  let ?tc = "transfer_calls d False (word_of_int (LCD_CMD_FUNCTION False False False)) @ [Delay (busTiming_busyHoldShort d)]"
  from assms(2) have ok1: "all_ok c w (init_reset_calls d)"
    and ok2: "all_ok c (w @ init_reset_calls d) (init_request_calls d)"
    and ok3: "all_ok c ((w @ init_reset_calls d) @ init_request_calls d) ?tc"
    by (simp_all only: all_ok_append append_assoc)
  from io_chain_ok[OF ok1] io_chain_ok[OF ok2] command_write_only_ok[OF assms(1) ok3]
  show ?thesis by (simp add: lcdInit4Bit_def)
qed

lemma init_write_only:
  assumes "fourBits d" "writeOnly d" "all_ok c w (init_write_only_calls d)"
  shows "lcdInit c d w =
           Some (Returned 0 (d\<lparr>cursor_x := 0, cursor_y := 0\<rparr>) (w @ init_write_only_calls d))"
proof -
  let ?d0 = "d\<lparr>cursor_x := 0, cursor_y := 0\<rparr>"
  let ?s = "busTiming_busyHoldShort d"
  let ?A = "init_reset_calls d @ init_request_calls d @
        transfer_calls d False (word_of_int (LCD_CMD_FUNCTION False False False)) @ [Delay ?s]"
  let ?B = "transfer_calls d False
       (word_of_int (LCD_CMD_FUNCTION False (uint (dimensions_height d) > 1) (largeFont d))) @ [Delay ?s]"
  let ?C = "transfer_calls d False (word_of_int LCD_CMD_CLEAR) @ [Delay ?s] @ [Delay ?s]"
  have split: "init_write_only_calls d = ?A @ ?B @ [Delay ?s] @ ?C"
    by (simp add: init_write_only_calls_def)
  from assms(3) have okA: "all_ok c w ?A" and okB: "all_ok c (w @ ?A) ?B"
    and okD: "all_ok c ((w @ ?A) @ ?B) [Delay ?s]"
    and okC: "all_ok c (((w @ ?A) @ ?B) @ [Delay ?s]) ?C"
    unfolding split by (simp_all only: all_ok_append append_assoc)
  have wo: "writeOnly ?d0" using assms(2) by simp
  from init4_write_only_ok[OF wo, of c w] okA
  have 1: "lcdInit4Bit c ?d0 w = Some (0, ?d0, w @ ?A)" by (simp add: init_calls_cursor)
  from command_write_only_ok[OF wo, of c "w @ ?A"] okB
  have 2: "lcdCommand c ?d0 (word_of_int (LCD_CMD_FUNCTION False (uint (dimensions_height d) > 1) (largeFont d))) (w @ ?A)
      = Some (0, ?d0, (w @ ?A) @ ?B)" by (simp add: init_calls_cursor)
  from okD have 3: "delay c ((w @ ?A) @ ?B) ?s = 0" by simp
  from clear_write_only_ok[OF wo, of c "((w @ ?A) @ ?B) @ [Delay ?s]"] okC
  have 4: "lcdClear c ?d0 (((w @ ?A) @ ?B) @ [Delay ?s]) = Some (0, ?d0, (((w @ ?A) @ ?B) @ [Delay ?s]) @ ?C)"
    by (simp add: init_calls_cursor)
  have "lcdInit c d w = Some (Returned 0 ?d0 ((((w @ ?A) @ ?B) @ [Delay ?s]) @ ?C))"
    using assms(1) 1 2 3 4 by (simp add: lcdInit_def Let_def lcdDelay_def returned_def)
  then show ?thesis unfolding split by (simp only: append_assoc)
qed

lemmas init_defs = init_write_only_calls_def init_reset_calls_def init_request_calls_def transfer_calls_def
  write_pulse_def LCD_CMD_FUNCTION_def LCD_CMD_CLEAR_def

text \<open>
  C2, as stated: the settle delay after the third reset pulse is the configured
  enable-hold, and the four-bit request pulse is followed directly by the
  function-set command carrying the line count and font. With enable-hold 3
  and data-hold 7 on a 16 by 2 display, the third pulse is followed by a
  delay of 7 (the data-hold), and between the request pulse and the command
  \<open>0x28\<close> the command \<open>0x20\<close> is sent in full (calls 22 to 34).
\<close>

theorem init_sequence_counterexample:
  "lcdInit quiet ((example_driver 16 2)\<lparr>busTiming_enableHold := 3, busTiming_dataHold := 7\<rparr>) [] =
     Some (Returned 0 ((example_driver 16 2)\<lparr>busTiming_enableHold := 3, busTiming_dataHold := 7\<rparr>)
       (init_write_only_calls ((example_driver 16 2)\<lparr>busTiming_enableHold := 3, busTiming_dataHold := 7\<rparr>)))
   \<and> take 4 (drop 12 (init_write_only_calls ((example_driver 16 2)\<lparr>busTiming_enableHold := 3, busTiming_dataHold := 7\<rparr>)))
       = [BusIO False False True 0x30, Delay 3, BusIO False False False 0x30, Delay 7]
   \<and> busTiming_enableHold ((example_driver 16 2)\<lparr>busTiming_enableHold := 3, busTiming_dataHold := 7\<rparr>) = 3
   \<and> busTiming_dataHold ((example_driver 16 2)\<lparr>busTiming_enableHold := 3, busTiming_dataHold := 7\<rparr>) = 7
   \<and> take 13 (drop 22 (init_write_only_calls ((example_driver 16 2)\<lparr>busTiming_enableHold := 3, busTiming_dataHold := 7\<rparr>)))
       = [BusIO False False False 0x20, Delay 10, BusIO False False True 0x20, Delay 3,
          BusIO False False False 0x20, Delay 7, BusIO False False False 0, Delay 10,
          BusIO False False True 0, Delay 3, BusIO False False False 0, Delay 7, Delay 500]
   \<and> take 1 (drop 35 (init_write_only_calls ((example_driver 16 2)\<lparr>busTiming_enableHold := 3, busTiming_dataHold := 7\<rparr>)))
       = [BusIO False False False 0x28]"
  using init_write_only[where c = quiet and w = "[]"
      and d = "((example_driver 16 2)\<lparr>busTiming_enableHold := 3, busTiming_dataHold := 7\<rparr>)"]
  by (simp add: init_defs fixture_defs)

text \<open>
  C2, amended: with a four-bit bus, a successful \<^verbatim>\<open>lcdInit\<close> has performed, in
  order: two function-set(8-bit) pulses followed by delays of 5000 and 100
  microseconds, a third pulse without address set-up followed by the
  configured data-hold; one function-set(4-bit) pulse followed by the
  data-hold plus 100; the command function-set(4-bit, one line, small font)
  through the normal path; the command function-set(4-bit, two lines iff
  \<open>height > 1\<close>, configured font) followed by a short busy-hold; and the clear
  command followed by a short busy-hold; and the cursor is (0, 0). On a
  write-only bus whose collaborators succeed, the trace is exactly
  \<open>init_write_only_calls\<close> and the result is 0.
\<close>

theorem init_four_bit_sequence:
  assumes "fourBits d"
  shows "(lcdInit c d w = Some (Returned 0 d' w') \<longrightarrow>
           d' = d\<lparr>cursor_x := 0, cursor_y := 0\<rparr> \<and>
           (\<exists>w1 w2 w3.
              all_ok c w (init_reset_calls d @ init_request_calls d) \<and>
              lcdCommand c (d\<lparr>cursor_x := 0, cursor_y := 0\<rparr>) (word_of_int (LCD_CMD_FUNCTION False False False))
                (w @ init_reset_calls d @ init_request_calls d) = Some (0, d\<lparr>cursor_x := 0, cursor_y := 0\<rparr>, w1) \<and>
              lcdCommand c (d\<lparr>cursor_x := 0, cursor_y := 0\<rparr>)
                (word_of_int (LCD_CMD_FUNCTION False (uint (dimensions_height d) > 1) (largeFont d))) w1
                = Some (0, d\<lparr>cursor_x := 0, cursor_y := 0\<rparr>, w2) \<and>
              delay c w2 (busTiming_busyHoldShort d) = 0 \<and>
              lcdCommand c (d\<lparr>cursor_x := 0, cursor_y := 0\<rparr>) (word_of_int LCD_CMD_CLEAR)
                (w2 @ [Delay (busTiming_busyHoldShort d)]) = Some (0, d\<lparr>cursor_x := 0, cursor_y := 0\<rparr>, w3) \<and>
              delay c w3 (busTiming_busyHoldShort d) = 0 \<and>
              w' = w3 @ [Delay (busTiming_busyHoldShort d)]))
       \<and> (writeOnly d \<and> all_ok c w (init_write_only_calls d) \<longrightarrow>
            lcdInit c d w =
              Some (Returned 0 (d\<lparr>cursor_x := 0, cursor_y := 0\<rparr>) (w @ init_write_only_calls d)))"
    (is "(?P \<longrightarrow> ?Q) \<and> (?R \<longrightarrow> ?S)")
proof (rule conjI)
  show "?P \<longrightarrow> ?Q"
  proof (rule impI)
    assume ?P
    from init_cases[OF this] show ?Q by simp
  qed
  show "?R \<longrightarrow> ?S"
  proof (rule impI)
    assume ?R
    with init_write_only[OF assms, of c w] show ?S by simp
  qed
qed

theorem init_four_bit_sequence_witness:
  "lcdInit quiet (example_driver 16 2) [] =
     Some (Returned 0 (example_driver 16 2)
       [BusIO False False False 48, Delay 10, BusIO False False True 48, Delay 10, BusIO False False False 48, Delay 5000,
        BusIO False False False 48, Delay 10, BusIO False False True 48, Delay 10, BusIO False False False 48, Delay 100,
        BusIO False False True 48, Delay 10, BusIO False False False 48, Delay 10,
        BusIO False False False 32, Delay 10, BusIO False False True 32, Delay 10, BusIO False False False 32, Delay 110,
        BusIO False False False 32, Delay 10, BusIO False False True 32, Delay 10, BusIO False False False 32, Delay 10, BusIO False False False 0, Delay 10, BusIO False False True 0, Delay 10, BusIO False False False 0, Delay 10, Delay 500,
        BusIO False False False 40, Delay 10, BusIO False False True 40, Delay 10, BusIO False False False 40, Delay 10, BusIO False False False 128, Delay 10, BusIO False False True 128, Delay 10, BusIO False False False 128, Delay 10, Delay 500,
        Delay 500,
        BusIO False False False 1, Delay 10, BusIO False False True 1, Delay 10, BusIO False False False 1, Delay 10, BusIO False False False 16, Delay 10, BusIO False False True 16, Delay 10, BusIO False False False 16, Delay 10, Delay 500,
        Delay 500])"
  using init_four_bit_sequence[where c = quiet and w = "[]" and d = "example_driver 16 2"]
  by (simp add: init_defs fixture_defs)

section \<open>Failing calls by number\<close>

lemma all_ok_nth:
  "all_ok c w u \<Longrightarrow> k < length u \<Longrightarrow> \<not> call_fails c (w @ take k u) (u ! k)"
proof (induction u arbitrary: w k)
  case Nil then show ?case by simp
next
  case (Cons e u)
  show ?case
  proof (cases k)
    case 0 with Cons.prems show ?thesis by simp
  next
    case (Suc j)
    with Cons.prems have "all_ok c (w @ [e]) u" "j < length u" by simp_all
    from Cons.IH[OF this] Suc show ?thesis by simp
  qed
qed

lemma seg_stops:
  assumes "seg c w f w'" "f \<Longrightarrow> r \<noteq> 0"
  shows "stops_at_failure c w r w'"
proof -
  from assms(1) obtain u where u: "w' = w @ u"
    "if f then u \<noteq> [] \<and> all_ok c w (butlast u) \<and> call_fails c (w @ butlast u) (last u) else all_ok c w u"
    by (rule segE)
  have *: "Suc k = length w' \<and> r \<noteq> 0"
    if k: "length w \<le> k" "k < length w'" "call_fails c (take k w') (w' ! k)" for k
  proof -
    define j where "j = k - length w"
    have j: "k = length w + j" "j < length u" using k u(1) by (simp_all add: j_def)
    have f1: "call_fails c (w @ take j u) (u ! j)" using k(3) u(1) j by (simp add: nth_append)
    show ?thesis
    proof (cases f)
      case False
      with u(2) all_ok_nth[of c w u j] j f1 show ?thesis by simp
    next
      case True
      with u(2) have ne: "u \<noteq> []" and ok: "all_ok c w (butlast u)" by simp_all
      have "\<not> j < length (butlast u)"
      proof
        assume lt: "j < length (butlast u)"
        from all_ok_nth[OF ok lt] have "\<not> call_fails c (w @ take j (butlast u)) (butlast u ! j)" .
        moreover have "take j (butlast u) = take j u" using lt by (simp add: take_butlast)
        moreover have "butlast u ! j = u ! j" using lt by (simp add: nth_butlast)
        ultimately show False using f1 by simp
      qed
      with j ne have "Suc j = length u" by simp
      with j u(1) True assms(2) show ?thesis by simp
    qed
  qed
  have "take (length w) w' = w" using u(1) by simp
  with * show ?thesis unfolding stops_at_failure_def by blast
qed

lemma fs_stops: "fail_stop c w r w' \<Longrightarrow> stops_at_failure c w r w'"
  unfolding fail_stop_def by (auto intro: seg_stops)

lemma seg_False_no_fail:
  assumes "seg c w False w'" "length w \<le> k" "k < length w'"
  shows "\<not> call_fails c (take k w') (w' ! k)"
  using seg_stops[OF assms(1), of 0] assms(2,3) by (auto simp: stops_at_failure_def)

lemma transfer_latches:
  assumes t: "lcd_transfer c d rs b w = Some (r, d', w')"
    and k: "length w \<le> k" "k < length w'" "call_fails c (take k w') (w' ! k)"
    and pos: "k < length w + length (transfer_calls d rs b) \<or> \<not> writeOnly d \<and> w' ! k \<noteq> BusIO False False False 0"
  shows "r = - 1 \<and> error d' = EIO"
  using lcd_transfer_cases[OF t]
proof (elim disjE conjE exE)
  assume "r = - 1" "d' = d\<lparr>error := EIO\<rparr>"
  then show ?thesis by simp
next
  assume a: "writeOnly d" "all_ok c w (transfer_calls d rs b)"
    "w' = w @ transfer_calls d rs b @ [Delay (busTiming_busyHoldShort d)]"
  from pos a(1) have kl: "k < length w + length (transfer_calls d rs b)" by simp
  have "seg c w False (w @ transfer_calls d rs b)" using a(2) by (intro segI[where u = "transfer_calls d rs b"]) auto
  from seg_False_no_fail[OF this k(1)] kl
  have "\<not> call_fails c (take k (w @ transfer_calls d rs b)) ((w @ transfer_calls d rs b) ! k)" by simp
  moreover have "k < length (w @ transfer_calls d rs b)" using kl by simp
  moreover have "w' = (w @ transfer_calls d rs b) @ [Delay (busTiming_busyHoldShort d)]" using a(3) by simp
  ultimately have "\<not> call_fails c (take k w') (w' ! k)"
    by (simp only: take_append nth_append) simp
  with k(3) show ?thesis by simp
next
  fix w4 assume a: "\<not> writeOnly d" "seg c w False w4"
    "length w + length (transfer_calls d rs b) \<le> length w4" "w' = w4 @ [BusIO False False False 0]"
  show ?thesis
  proof (cases "k < length w4")
    case True
    from seg_False_no_fail[OF a(2) k(1) True] have "\<not> call_fails c (take k w4) (w4 ! k)" .
    moreover have "take k w' = take k w4" "w' ! k = w4 ! k" using True a(4) by (simp_all add: nth_append)
    ultimately show ?thesis using k(3) by simp
  next
    case False
    with k(2) a(4) have "k = length w4" by simp
    with a(4) have "w' ! k = BusIO False False False 0" by simp
    with pos a(3) \<open>k = length w4\<close> show ?thesis by simp
  qed
qed

section \<open>The driver after an operation\<close>











lemma set_cursor_fs:
  assumes "lcdSetCursor c d column row w = Some (Returned r d' w')"
  shows "uint column < uint (dimensions_width d) \<and> uint row < uint (dimensions_height d) \<and>
         lcdCommand c (d\<lparr>cursor_x := column, cursor_y := row\<rparr>)
           (word_of_int (LCD_CMD_DADDR (uint (word_of_int (LCD_DECODE_CURSOR (d\<lparr>cursor_x := column, cursor_y := row\<rparr>)) :: u8)))) w
           = Some (r, d', w')"
  using assms by (auto simp: lcdSetCursor_def Let_def returned_Some split: if_splits)




lemma put_loop_fs:
  "put_loop c d a str w = Some (r, d', w') \<Longrightarrow>
     fail_stop c w r w' \<and>
     (\<exists>n\<le>length str. err_only ((lcdUpdateCursor ^^ n) d) d' \<and> (r = 0 \<longrightarrow> n = length str))"
proof (induction str arbitrary: d a w)
  case Nil
  then have "lcdCommand c d (word_of_int (LCD_CMD_DADDR (uint a))) w = Some (r, d', w')" by simp
  from command_fs[OF this] show ?case by simp
next
  case (Cons ch str)
  let ?d2 = "lcdUpdateCursor d"
  let ?na = "(word_of_int (LCD_DECODE_CURSOR ?d2) :: u8)"
  have shift: "\<And>n. (lcdUpdateCursor ^^ n) ?d2 = (lcdUpdateCursor ^^ Suc n) d"
    by (simp add: funpow_swap1)
  have step: "\<exists>n\<le>length (ch # str). err_only ((lcdUpdateCursor ^^ n) d) d' \<and> (r = 0 \<longrightarrow> n = length (ch # str))"
    if "\<exists>n\<le>length str. err_only ((lcdUpdateCursor ^^ n) ?d2) d' \<and> (r = 0 \<longrightarrow> n = length str)"
  proof -
    from that obtain n where n: "n \<le> length str" "err_only ((lcdUpdateCursor ^^ n) ?d2) d'" "r = 0 \<longrightarrow> n = length str"
      by blast
    show ?thesis using n unfolding shift by (intro exI[of _ "Suc n"]) simp
  qed
  from Cons.prems have "(case lcdWrite c d ch w of
        None \<Rightarrow> None
      | Some (r, d1, w1) \<Rightarrow>
          if r \<noteq> 0 then Some (- 1, d1, w1)
          else
            (let d2 = lcdUpdateCursor d1;
                 newaddr = (word_of_int (LCD_DECODE_CURSOR d2) :: u8)
             in if uint newaddr \<noteq> uint a + 1 then
                  (case lcdCommand c d2 (word_of_int (LCD_CMD_DADDR (uint a))) w1 of
                     None \<Rightarrow> None
                   | Some (r2, d3, w2) \<Rightarrow>
                       if r2 \<noteq> 0 then Some (- 1, d3, w2)
                       else put_loop c d3 newaddr str w2)
                else put_loop c d2 newaddr str w1)) = Some (r, d', w')"
    by simp
  then show ?case
  proof (cases rule: ret_seq_cases)
    case (fail r1)
    from write_fs[OF fail(1)] fail(2,3) have "fail_stop c w r w'" "err_only d d'" by (auto intro: fs_minus1)
    with fail(3) show ?thesis by (intro conjI exI[of _ 0]) simp_all
  next
    case (cont d1 w1)
    from write_fs[OF cont(1)] have 1: "seg c w False w1" "d1 = d" by (simp_all add: fs_ok)
    show ?thesis
    proof (cases "uint ?na \<noteq> uint a + 1")
      case False
      with cont(2) 1(2) have "put_loop c ?d2 ?na str w1 = Some (r, d', w')" by (simp add: Let_def)
      from Cons.IH[OF this] 1(1) step show ?thesis by (auto intro: fs_trans)
    next
      case True
      with cont(2) 1(2) have "(case lcdCommand c ?d2 (word_of_int (LCD_CMD_DADDR (uint a))) w1 of
                     None \<Rightarrow> None
                   | Some (r2, d3, w2) \<Rightarrow>
                       if r2 \<noteq> 0 then Some (- 1, d3, w2)
                       else put_loop c d3 ?na str w2) = Some (r, d', w')" by (simp add: Let_def)
      then show ?thesis
      proof (cases rule: ret_seq_cases)
        case (fail r2)
        from command_fs[OF fail(1)] fail(2,3) 1(1) have "fail_stop c w r w'" "err_only ?d2 d'"
          by (auto intro: fs_minus1 fs_trans)
        with fail(3) show ?thesis by (intro conjI exI[of _ 1]) simp_all
      next
        case (cont d3 w2)
        from command_fs[OF cont(1)] 1(1) have 2: "seg c w False w2" "d3 = ?d2"
          by (auto dest: fs_ok intro: seg_trans)
        from cont(2) 2(2) have "put_loop c ?d2 ?na str w2 = Some (r, d', w')" by simp
        from Cons.IH[OF this] 2(1) step show ?thesis by (auto intro: fs_trans)
      qed
    qed
  qed
qed

lemma put_string_fs:
  assumes "lcdPutString c d str w = Some (r, d', w')"
  shows "fail_stop c w r w' \<and>
     (\<exists>n\<le>length str. err_only ((lcdUpdateCursor ^^ n) d) d' \<and> (r = 0 \<longrightarrow> n = length str))"
proof -
  let ?a = "(word_of_int (LCD_DECODE_CURSOR d) :: u8)"
  from assms have "(case lcdCommand c d (word_of_int (LCD_CMD_DADDR (uint ?a))) w of
           None \<Rightarrow> None
         | Some (r, d1, w1) \<Rightarrow>
             if r \<noteq> 0 then Some (- 1, d1, w1) else put_loop c d1 ?a str w1) = Some (r, d', w')"
    by (simp add: lcdPutString_def Let_def)
  then show ?thesis
  proof (cases rule: ret_seq_cases)
    case (fail r1)
    from command_fs[OF fail(1)] fail(2,3) have "fail_stop c w r w'" "err_only d d'" by (auto intro: fs_minus1)
    with fail(3) show ?thesis by (intro conjI exI[of _ 0]) simp_all
  next
    case (cont d1 w1)
    from command_fs[OF cont(1)] have 1: "seg c w False w1" "d1 = d" by (simp_all add: fs_ok)
    from put_loop_fs[OF cont(2)] 1 show ?thesis by (auto intro: fs_trans)
  qed
qed

section \<open>When a transfer does not return\<close>

lemma poll_body_inv:
  assumes "poll_body c d w = (False, v, w')"
  shows "all_ok c w (poll_cycle d) \<and> w' = w @ poll_cycle d \<and> v = busIO c (w @ poll_head d) True False True 0"
proof -
  obtain f1 w1 where c1: "io_chain c (poll_head d) w = (f1, w1)" by (cases "io_chain c (poll_head d) w")
  with assms have f1: "\<not> f1" by (cases f1) (simp_all add: poll_body_def)
  from io_chain_prefix[OF c1] f1 have w1: "w1 = w @ poll_head d" "all_ok c w (poll_head d)" by auto
  let ?v = "busIO c w1 True False True 0"
  let ?w2 = "w1 @ [BusIO True False True 0]"
  from assms c1 f1 have nv: "\<not> ?v < 0" by (auto simp: poll_body_def lcdBusIO_def split: if_splits)
  obtain f3 w3 where c3: "io_chain c (poll_tail d) ?w2 = (f3, w3)" by (cases "io_chain c (poll_tail d) ?w2")
  from assms c1 f1 nv c3 have r: "f3 = False" "v = ?v" "w' = w3" by (simp_all add: poll_body_def lcdBusIO_def)
  from io_chain_prefix[OF c3] r(1) have w3: "w3 = ?w2 @ poll_tail d" "all_ok c ?w2 (poll_tail d)" by auto
  show ?thesis using w1 nv r w3 by (simp add: poll_cycle_def all_ok_append)
qed

lemma busy_wait_None:
  "busy_wait c d w = None \<Longrightarrow>
     all_ok c w (concat (replicate n (poll_cycle d))) \<and>
     bit (busIO c (w @ concat (replicate n (poll_cycle d)) @ poll_head d) True False True 0) 7"
proof (induction n arbitrary: w)
  case 0
  obtain f v w' where pb: "poll_body c d w = (f, v, w')" by (cases "poll_body c d w") auto
  from 0 pb have "\<not> f" "bit v 7" by (subst (asm) busy_wait.simps; simp split: if_splits)+
  with poll_body_inv[of c d w v w'] pb show ?case by simp
next
  case (Suc n)
  obtain f v w' where pb: "poll_body c d w = (f, v, w')" by (cases "poll_body c d w") auto
  from Suc.prems pb have "\<not> f" "bit v 7" by (subst (asm) busy_wait.simps; simp split: if_splits)+
  with Suc.prems pb have rec: "busy_wait c d w' = None" by (subst (asm) busy_wait.simps) simp
  from poll_body_inv[of c d w v w'] pb \<open>\<not> f\<close> have inv: "all_ok c w (poll_cycle d)" "w' = w @ poll_cycle d" by simp_all
  from Suc.IH[OF rec] inv show ?case by (simp add: all_ok_append)
qed

lemma transfer_None:
  assumes "lcd_transfer c d rs b w = None"
  shows "\<not> writeOnly d \<and>
     (\<forall>n. all_ok c w (polled_calls d rs b n) \<and>
          bit (busIO c (w @ polled_calls d rs b n @ poll_head d) True False True 0) 7)"
proof -
  let ?turn = "[BusIO True False False 0, Delay (busTiming_addressSetup d)]"
  obtain f1 w1 where c1: "io_chain c (write_pulse d rs b) w = (f1, w1)" by (cases "io_chain c (write_pulse d rs b) w")
  with assms have f1: "\<not> f1" by (cases f1) (simp_all add: lcd_transfer_def)
  obtain f2 w2 where c2: "(if fourBits d then io_chain c (write_pulse d rs (push_bit 4 b)) w1 else (False, w1)) = (f2, w2)" 
    by (cases "(if fourBits d then io_chain c (write_pulse d rs (push_bit 4 b)) w1 else (False, w1))")
  with assms c1 f1 have f2: "\<not> f2" by (cases f2) (simp_all add: lcd_transfer_def)
  from transfer_chain[of c d rs b w w1 w2] c1 c2 f1 f2
  have w2: "w2 = w @ transfer_calls d rs b" "all_ok c w (transfer_calls d rs b)" by simp_all
  from assms c1 f1 c2 f2 have ro: "\<not> writeOnly d"
    by (auto simp: lcd_transfer_def lcdDelay_def)
  obtain f3 w3 where c3: "io_chain c ?turn w2 = (f3, w3)" by (cases "io_chain c ?turn w2")
  with assms c1 f1 c2 f2 ro have f3: "\<not> f3" by (cases f3) (simp_all add: lcd_transfer_def del: io_chain.simps)
  from io_chain_prefix[OF c3] f3 have w3: "w3 = w2 @ ?turn" "all_ok c w2 ?turn" by auto
  from assms c1 f1 c2 f2 ro c3 f3 have bw: "busy_wait c d w3 = None"
    by (cases "busy_wait c d w3")
       (auto simp: lcd_transfer_def lcdBusIO_def simp del: io_chain.simps split: bool.splits)
  have "all_ok c w (polled_calls d rs b n) \<and>
          bit (busIO c (w @ polled_calls d rs b n @ poll_head d) True False True 0) 7" for n
    using busy_wait_None[OF bw, of n] w2 w3
    by (simp add: polled_calls_def all_ok_append)
  with ro show ?thesis by blast
qed

section \<open>Claims about failures and the cursor invariant\<close>


lemma err_only_cursor: "err_only d d' \<Longrightarrow> cursor_x d' = cursor_x d \<and> cursor_y d' = cursor_y d"
  by (auto simp: err_only_def)

lemma transfer_abort:
  assumes "lcd_transfer c d rs b w = Some (r, d', w')"
  shows "stops_at_failure c w r w' \<and> cursor_x d' = cursor_x d \<and> cursor_y d' = cursor_y d \<and>
       (\<forall>k. length w \<le> k \<and> k < length w' \<and> call_fails c (take k w') (w' ! k) \<and>
            (k < length w + length (transfer_calls d rs b) \<or>
             \<not> writeOnly d \<and> w' ! k \<noteq> BusIO False False False 0)
          \<longrightarrow> r = - 1 \<and> error d' = EIO)"
  using transfer_fs(1,2)[OF assms] transfer_latches[OF assms]
  by (auto dest: fs_stops err_only_cursor)

lemmas fail_defs = failing_at_def example_driver_def lcdLoadDefaultTiming_def EIO_def

text \<open>
  C3, as stated: when a collaborator call fails, the operation leaves the
  cursor fields unchanged. \<^verbatim>\<open>lcdSetCursor\<close> stores the requested position before
  it sends the command: when the very first bus call fails, the cursor of a
  16 by 2 driver has moved from (0, 0) to (5, 1).
\<close>

theorem set_cursor_failure_counterexample:
  "lcdSetCursor (failing_at 0) (example_driver 16 2) 5 1 [] =
     Some (Returned (- 1)
       ((example_driver 16 2)\<lparr>error := EIO, cursor_x := 5, cursor_y := 1\<rparr>)
       [BusIO False False False 0xC5])
   \<and> call_fails (failing_at 0) [] (BusIO False False False 0xC5)
   \<and> cursor_x (example_driver 16 2) = 0
   \<and> cursor_y (example_driver 16 2) = 0
   \<and> cursor_x ((example_driver 16 2)\<lparr>error := EIO, cursor_x := 5, cursor_y := 1\<rparr>) \<noteq> cursor_x (example_driver 16 2)"
  by (simp add: lcdSetCursor_def Let_def returned_def LCD_DECODE_CURSOR_def LCD_CMD_DADDR_def
        signed_modulo_int_def run_defs fail_defs)

text \<open>
  The last call of a transfer is returned as it is: on a write-only bus a
  failing final delay (call 12 of a four-bit transfer) makes \<^verbatim>\<open>lcdCommand\<close>
  return the collaborator's value with \<^verbatim>\<open>error\<close> still 0.
\<close>

lemma final_delay_failure_not_latched:
  "lcdCommand (failing_at 12) (example_driver 16 2) 1 [] =
     Some (1, example_driver 16 2,
         [BusIO False False False 1, Delay 10, BusIO False False True 1, Delay 10,
          BusIO False False False 1, Delay 10,
          BusIO False False False 16, Delay 10, BusIO False False True 16, Delay 10,
          BusIO False False False 16, Delay 10, Delay 500])
   \<and> error (example_driver 16 2) = 0"
  by (simp add: run_defs fail_defs)

text \<open>
  C3, amended: for send-command, send-data, set-cursor, init and string write,
  a failing collaborator call is the last call the operation makes, and the
  operation then returns a non-zero value. Send-command and send-data leave
  the cursor fields unchanged, and latch \<^verbatim>\<open>EIO\<close> and return -1 when the failing
  call is one of the write pulses or, on a read-capable bus, any call other
  than \<^verbatim>\<open>lcdBusIO(0, 0, 0, 0)\<close>; they return unless the bus is read-capable,
  every call succeeds and every status read shows the busy flag. Set-cursor
  stores the requested position, and init the position (0, 0), before any bus
  activity, so that the cursor holds it also after a failure. String write
  leaves the cursor advanced \<open>n\<close> times for some \<open>n\<close> up to the length of the
  string, with \<open>n\<close> the length when it returns 0.
\<close>

theorem failure_aborts_operation:
  "(lcdCommand c d command w = Some (r, d', w') \<longrightarrow>
       stops_at_failure c w r w' \<and> cursor_x d' = cursor_x d \<and> cursor_y d' = cursor_y d \<and>
       (\<forall>k. length w \<le> k \<and> k < length w' \<and> call_fails c (take k w') (w' ! k) \<and>
            (k < length w + length (transfer_calls d False command) \<or>
             \<not> writeOnly d \<and> w' ! k \<noteq> BusIO False False False 0)
          \<longrightarrow> r = - 1 \<and> error d' = EIO))
   \<and> (lcdCommand c d command w = None \<longrightarrow>
        \<not> writeOnly d \<and>
        (\<forall>n. all_ok c w (polled_calls d False command n) \<and>
             bit (busIO c (w @ polled_calls d False command n @ poll_head d) True False True 0) 7))
   \<and> (lcdWrite c d data w = Some (r, d', w') \<longrightarrow>
       stops_at_failure c w r w' \<and> cursor_x d' = cursor_x d \<and> cursor_y d' = cursor_y d \<and>
       (\<forall>k. length w \<le> k \<and> k < length w' \<and> call_fails c (take k w') (w' ! k) \<and>
            (k < length w + length (transfer_calls d True data) \<or>
             \<not> writeOnly d \<and> w' ! k \<noteq> BusIO False False False 0)
          \<longrightarrow> r = - 1 \<and> error d' = EIO))
   \<and> (lcdWrite c d data w = None \<longrightarrow>
        \<not> writeOnly d \<and>
        (\<forall>n. all_ok c w (polled_calls d True data n) \<and>
             bit (busIO c (w @ polled_calls d True data n @ poll_head d) True False True 0) 7))
   \<and> (lcdSetCursor c d column row w = Some (Returned r d' w') \<longrightarrow>
        stops_at_failure c w r w' \<and> cursor_x d' = column \<and> cursor_y d' = row)
   \<and> (lcdInit c d w = Some (Returned r d' w') \<longrightarrow>
        stops_at_failure c w r w' \<and> cursor_x d' = 0 \<and> cursor_y d' = 0)
   \<and> (lcdPutString c d str w = Some (r, d', w') \<longrightarrow>
        stops_at_failure c w r w' \<and>
        (\<exists>n\<le>length str.
           cursor_x d' = cursor_x ((lcdUpdateCursor ^^ n) d) \<and>
           cursor_y d' = cursor_y ((lcdUpdateCursor ^^ n) d) \<and>
           (r = 0 \<longrightarrow> n = length str)))"
  (is "?A \<and> ?B \<and> ?C \<and> ?D \<and> ?E \<and> ?F \<and> ?G")
proof -
  have a: ?A using transfer_abort[of c d False command w r d' w'] unfolding lcdCommand_def by blast
  have b: ?B using transfer_None[of c d False command w] unfolding lcdCommand_def by blast
  have c: ?C using transfer_abort[of c d True data w r d' w'] unfolding lcdWrite_def by blast
  have d: ?D using transfer_None[of c d True data w] unfolding lcdWrite_def by blast
  have e: ?E
  proof
    assume "lcdSetCursor c d column row w = Some (Returned r d' w')"
    from set_cursor_fs[OF this] have "lcdCommand c (d\<lparr>cursor_x := column, cursor_y := row\<rparr>)
           (word_of_int (LCD_CMD_DADDR (uint (word_of_int (LCD_DECODE_CURSOR (d\<lparr>cursor_x := column, cursor_y := row\<rparr>)) :: u8)))) w
           = Some (r, d', w')" by simp
    from command_fs(1,2)[OF this]
    show "stops_at_failure c w r w' \<and> cursor_x d' = column \<and> cursor_y d' = row"
      by (auto dest: fs_stops err_only_cursor)
  qed
  have f: ?F
  proof
    assume "lcdInit c d w = Some (Returned r d' w')"
    from init_cases[OF this]
    show "stops_at_failure c w r w' \<and> cursor_x d' = 0 \<and> cursor_y d' = 0"
      by (auto dest: fs_stops err_only_cursor)
  qed
  have g: ?G
  proof
    assume "lcdPutString c d str w = Some (r, d', w')"
    from put_string_fs[OF this] obtain n where fs: "fail_stop c w r w'" and n: "n \<le> length str"
      "err_only ((lcdUpdateCursor ^^ n) d) d'" "r = 0 \<longrightarrow> n = length str" by blast
    from err_only_cursor[OF n(2)] n(1,3) fs_stops[OF fs]
    show "stops_at_failure c w r w' \<and>
        (\<exists>n\<le>length str.
           cursor_x d' = cursor_x ((lcdUpdateCursor ^^ n) d) \<and>
           cursor_y d' = cursor_y ((lcdUpdateCursor ^^ n) d) \<and>
           (r = 0 \<longrightarrow> n = length str))" by blast
  qed
  from a b c d e f g show ?thesis by blast
qed

theorem failure_aborts_operation_witness:
  "lcdCommand (failing_at 3) (example_driver 16 2) 1 [] =
     Some (- 1, (example_driver 16 2)\<lparr>error := EIO\<rparr>,
       [BusIO False False False 1, Delay 10, BusIO False False True 1, Delay 10])
   \<and> call_fails (failing_at 3) [BusIO False False False 1, Delay 10, BusIO False False True 1] (Delay 10)
   \<and> error ((example_driver 16 2)\<lparr>error := EIO\<rparr>) = 5"
  using failure_aborts_operation[where c = "failing_at 3" and d = "example_driver 16 2" and w = "[]"
      and command = 1 and r = "- 1" and d' = "(example_driver 16 2)\<lparr>error := EIO\<rparr>"
      and w' = "[BusIO False False False 1, Delay 10, BusIO False False True 1, Delay 10]"]
  by (simp add: run_defs fail_defs)




end
